theory Spec2Isabelle
  imports Complex_Main
begin

section \<open>Data model of \<^verbatim>\<open>game.ts\<close>\<close>

text \<open>
  The source file holds two variants of the same class \<^verbatim>\<open>SnakeGame\<close>: the first
  (lines 1-375) buffers directions in \<^verbatim>\<open>directionQueue\<close> and has no pause, the second
  (lines 376-691) keeps a single \<^verbatim>\<open>nextDirection\<close> and can be paused. Functions whose
  text is the same in both variants are defined once, over the fields both variants have;
  the others carry the suffix \<open>_queue\<close> or \<open>_pause\<close>.

  Numbers: every number the simulation handles is an integer (cells, directions, score),
  so a JavaScript \<^verbatim>\<open>number\<close> is an \<open>int\<close> here. The two places where JavaScript leaves
  the integers are written into the model: \<^verbatim>\<open>%\<close> by zero (NaN) and a viewport so small
  that the tile size is zero (the grid dimensions become Infinity or NaN).
\<close>

record Position =
  x :: int
  y :: int

text \<open>
  The fields of \<^verbatim>\<open>GameState\<close> shared by both variants, the fields of the class that
  the simulation reads (\<^verbatim>\<open>gridWidth\<close>, \<^verbatim>\<open>gridHeight\<close>), and the part of the browser
  the class acts on:
  \<^item> \<open>intervalArmed\<close>: whether the repeating timer whose handle is \<^verbatim>\<open>gameLoop\<close> is armed
    (\<^verbatim>\<open>setInterval\<close> arms it, \<^verbatim>\<open>clearInterval\<close> disarms it);
  \<^item> \<open>pendingResets\<close>: the number of one-shot callbacks scheduled by \<^verbatim>\<open>setTimeout\<close>
    in \<^verbatim>\<open>gameOver\<close> that have not fired yet;
  \<^item> \<open>localStorage\<close>: the entry \<^verbatim>\<open>snakeHighScore\<close>, \<open>None\<close> when absent (the entry is
    the decimal string of an integer; the model keeps the integer);
  \<^item> \<open>gameStatus\<close>: the text of the element \<^verbatim>\<open>gameStatus\<close>;
  \<^item> \<open>draws\<close>: how many times \<^verbatim>\<open>draw\<close> has run;
  \<^item> \<open>cursor\<close>: how many times \<^verbatim>\<open>Math.random\<close> has been called.
\<close>

record SnakeGame =
  snake :: "Position list"
  food :: Position
  direction :: Position
  nextDirection :: Position
  score :: int
  highScore :: int
  gameRunning :: bool
  gridWidth :: int
  gridHeight :: int
  intervalArmed :: bool
  pendingResets :: nat
  localStorage :: "int option"
  gameStatus :: string
  draws :: nat
  cursor :: nat

record SnakeGame_queue = SnakeGame +
  directionQueue :: "Position list"

record SnakeGame_pause = SnakeGame +
  gamePaused :: bool

text \<open>
  What running a piece of the program can end in: it returns, it throws the TypeError of
  reading a property of \<^verbatim>\<open>undefined\<close>, it leaves the integers (\<open>NotANumber\<close>: the program
  goes on with NaN or Infinity for a coordinate, or with a direction that has no
  coordinates), or it never returns. The model follows the program only as long as it
  returns.

  Not modelled: what \<^verbatim>\<open>draw\<close> paints, \<^verbatim>\<open>preventDefault\<close>, and the line that
  \<^verbatim>\<open>handleKeyEvent\<close> logs for every event (line 113).
\<close>

datatype 'a outcome = Returns 'a | TypeError | NotANumber | Diverges

section \<open>The simulation step\<close>

text \<open>
  JavaScript's \<^verbatim>\<open>%\<close> on integers: the remainder of the truncating division, with the
  sign of the dividend; NaN (\<open>None\<close>) when the divisor is zero.
\<close>

definition js_rem :: "int \<Rightarrow> int \<Rightarrow> int option" where
  "js_rem a b = (if b = 0 then None else Some (sgn a * (\<bar>a\<bar> mod \<bar>b\<bar>)))"

text \<open>The constant \<^verbatim>\<open>newHead\<close> of \<^verbatim>\<open>update\<close> (lines 222-225 and 539-542).\<close>

definition newHead :: "'a SnakeGame_scheme \<Rightarrow> Position \<Rightarrow> Position option" where
  "newHead g head =
     (case js_rem (x head + x (direction g) + gridWidth g) (gridWidth g) of
        None \<Rightarrow> None
      | Some nx \<Rightarrow>
          (case js_rem (y head + y (direction g) + gridHeight g) (gridHeight g) of
             None \<Rightarrow> None
           | Some ny \<Rightarrow> Some \<lparr>x = nx, y = ny\<rparr>))"


text \<open>\<^verbatim>\<open>createInitialSnake\<close> (lines 84-95 and 459-470), with \<^verbatim>\<open>startX = 7\<close>, \<^verbatim>\<open>startY = 8\<close>.\<close>

definition createInitialSnake :: "Position list" where
  "createInitialSnake =
     [\<lparr>x = 7, y = 8\<rparr>, \<lparr>x = 7 - 1, y = 8\<rparr>, \<lparr>x = 7 - 2, y = 8\<rparr>,
      \<lparr>x = 7 - 3, y = 8\<rparr>, \<lparr>x = 7 - 4, y = 8\<rparr>]"

text \<open>\<^verbatim>\<open>loadHighScore\<close>: the saved value, 0 when there is none.\<close>

definition loadHighScore :: "'a SnakeGame_scheme \<Rightarrow> int" where
  "loadHighScore g = (case localStorage g of None \<Rightarrow> 0 | Some saved \<Rightarrow> saved)"

definition saveHighScore :: "'a SnakeGame_scheme \<Rightarrow> 'a SnakeGame_scheme" where
  "saveHighScore g = g\<lparr>localStorage := Some (highScore g)\<rparr>"

definition updateGameStatus :: "string \<Rightarrow> 'a SnakeGame_scheme \<Rightarrow> 'a SnakeGame_scheme" where
  "updateGameStatus message g = g\<lparr>gameStatus := message\<rparr>"

text \<open>\<^verbatim>\<open>draw\<close> paints the canvas from the state and changes nothing else.\<close>

definition draw :: "'a SnakeGame_scheme \<Rightarrow> 'a SnakeGame_scheme" where
  "draw g = g\<lparr>draws := Suc (draws g)\<rparr>"

text \<open>\<^verbatim>\<open>checkCollision\<close> (lines 242-246 and 559-563).\<close>

definition checkCollision :: "'a SnakeGame_scheme \<Rightarrow> Position \<Rightarrow> bool" where
  "checkCollision g head =
     list_ex (\<lambda>segment. x segment = x head \<and> y segment = y head) (snake g)"

text \<open>
  \<^verbatim>\<open>spawnFood\<close> (lines 248-263 and 565-580). \<open>rnd\<close> is the sequence of values that
  \<^verbatim>\<open>Math.random\<close> returns, each in \<open>[0, 1)\<close>; call number \<open>i\<close> returns \<open>rnd i\<close>. The products
  are exact here, where the program rounds them to a double; for grids of any realistic
  size the rounding changes neither \<^verbatim>\<open>Math.floor(gridWidth * 0.15)\<close> nor the set of cells
  a draw can give. The loop has no bound: where it never finds a free cell, \<open>spawnFood\<close>
  is \<open>None\<close>.
\<close>

partial_function (option) spawnFood ::
  "(nat \<Rightarrow> real) \<Rightarrow> 'a SnakeGame_scheme \<Rightarrow> 'a SnakeGame_scheme option" where
  "spawnFood rnd g =
     (let marginX = \<lfloor>of_int (gridWidth g) * (0.15 :: real)\<rfloor>;
          marginY = \<lfloor>of_int (gridHeight g) * (0.15 :: real)\<rfloor>;
          newFood = \<lparr>x = marginX + \<lfloor>rnd (cursor g) * of_int (gridWidth g - 2 * marginX)\<rfloor>,
                     y = marginY + \<lfloor>rnd (cursor g + 1) * of_int (gridHeight g - 2 * marginY)\<rfloor>\<rparr>;
          g' = g\<lparr>cursor := cursor g + 2\<rparr>
      in if list_ex (\<lambda>segment. x segment = x newFood \<and> y segment = y newFood) (snake g')
         then spawnFood rnd g'
         else Some (g'\<lparr>food := newFood\<rparr>))"

text \<open>
  \<^verbatim>\<open>gameOver\<close> up to the call of \<^verbatim>\<open>setTimeout\<close> (lines 341-355 and 658-672), the same
  in both variants; the callbacks it schedules differ and follow below.
\<close>

definition gameOver :: "'a SnakeGame_scheme \<Rightarrow> 'a SnakeGame_scheme" where
  "gameOver g =
     (let g1 = g\<lparr>gameRunning := False, intervalArmed := False\<rparr>;
          g2 = (if score g1 > highScore g1
                then updateGameStatus ''NEW HIGH SCORE! Press SPACE to Play Again''
                       (saveHighScore (g1\<lparr>highScore := score g1\<rparr>))
                else updateGameStatus ''GAME OVER! Press SPACE to Play Again'' g1)
      in g2\<lparr>pendingResets := Suc (pendingResets g2)\<rparr>)"

text \<open>
  \<^verbatim>\<open>update\<close> from the read of the head on (lines 221-239 and 538-556), the same in
  both variants.
\<close>

definition update_tail ::
  "(nat \<Rightarrow> real) \<Rightarrow> 'a SnakeGame_scheme \<Rightarrow> 'a SnakeGame_scheme outcome" where
  "update_tail rnd g =
     (case snake g of
        [] \<Rightarrow> TypeError
      | head # _ \<Rightarrow>
          (case newHead g head of
             None \<Rightarrow> NotANumber
           | Some nh \<Rightarrow>
               if checkCollision g nh then Returns (gameOver g)
               else
                 let g1 = g\<lparr>snake := nh # snake g\<rparr>
                 in if x nh = x (food g1) \<and> y nh = y (food g1)
                    then (case spawnFood rnd (g1\<lparr>score := score g1 + 10\<rparr>) of
                            None \<Rightarrow> Diverges
                          | Some g2 \<Rightarrow> Returns g2)
                    else Returns (g1\<lparr>snake := butlast (snake g1)\<rparr>)))"

text \<open>
  \<^verbatim>\<open>resizeCanvas\<close> for a viewport of \<open>innerWidth\<close> by \<open>innerHeight\<close> pixels. With a tile
  size of zero the divisions give Infinity or NaN.
\<close>

definition resizeCanvas ::
  "nat \<Rightarrow> nat \<Rightarrow> 'a SnakeGame_scheme \<Rightarrow> 'a SnakeGame_scheme outcome" where
  "resizeCanvas innerWidth innerHeight g =
     (let tileSize = \<lfloor>min (of_nat innerWidth / 25) (of_nat innerHeight / 14 :: real)\<rfloor>
      in if tileSize = 0 then NotANumber
         else Returns (g\<lparr>gridWidth := \<lfloor>of_nat innerWidth / (of_int tileSize :: real)\<rfloor>,
                          gridHeight := \<lfloor>of_nat innerHeight / (of_int tileSize :: real)\<rfloor>\<rparr>))"

section \<open>The bounded-queue variant\<close>

text \<open>
  The fields of a keyboard event that the listeners read. A \<^verbatim>\<open>code\<close> or \<^verbatim>\<open>key\<close> that
  the browser does not report is the empty string, a \<^verbatim>\<open>keyCode\<close> or \<^verbatim>\<open>which\<close> that it
  does not report is \<open>None\<close>.
\<close>

record KeyboardEvent =
  type :: string
  code :: string
  key :: string
  keyCode :: "nat option"
  which :: "nat option"

text \<open>\<^verbatim>\<open>Number.prototype.toString\<close> on a natural number: its decimal digits.\<close>

function toString :: "nat \<Rightarrow> string" where
  "toString n =
     (if n < 10 then [''0123456789'' ! n]
      else toString (n div 10) @ [''0123456789'' ! (n mod 10)])"
  by pat_completeness auto
termination
  by (relation "measure id") auto

declare toString.simps [simp del]

text \<open>The table \<^verbatim>\<open>directions\<close> of lines 127-143.\<close>

definition directions_queue :: "(string \<times> Position) list" where
  "directions_queue =
     [(''ArrowUp'', \<lparr>x = 0, y = -1\<rparr>), (''ArrowDown'', \<lparr>x = 0, y = 1\<rparr>),
      (''ArrowLeft'', \<lparr>x = -1, y = 0\<rparr>), (''ArrowRight'', \<lparr>x = 1, y = 0\<rparr>),
      (''Up'', \<lparr>x = 0, y = -1\<rparr>), (''Down'', \<lparr>x = 0, y = 1\<rparr>),
      (''Left'', \<lparr>x = -1, y = 0\<rparr>), (''Right'', \<lparr>x = 1, y = 0\<rparr>),
      (''38'', \<lparr>x = 0, y = -1\<rparr>), (''40'', \<lparr>x = 0, y = 1\<rparr>),
      (''37'', \<lparr>x = -1, y = 0\<rparr>), (''39'', \<lparr>x = 1, y = 0\<rparr>)]"

text \<open>
  \<^verbatim>\<open>newDirection\<close> of lines 146-149: the first of the four lookups that finds an entry.
  A missing \<^verbatim>\<open>code\<close> or \<^verbatim>\<open>key\<close> is the empty string, which the table does not have.
  A name that the table does not have is taken to name no direction. That is what the
  program does for every name but those of the properties that the table inherits as an
  object; the section on such key events below has the lookup and the handlers for them.
\<close>

definition newDirection_queue :: "KeyboardEvent \<Rightarrow> Position option" where
  "newDirection_queue e =
     (case map_of directions_queue (code e) of
        Some d \<Rightarrow> Some d
      | None \<Rightarrow>
     (case map_of directions_queue (key e) of
        Some d \<Rightarrow> Some d
      | None \<Rightarrow>
     (case map_of directions_queue (case keyCode e of None \<Rightarrow> [] | Some n \<Rightarrow> toString n) of
        Some d \<Rightarrow> Some d
      | None \<Rightarrow>
        map_of directions_queue (case which e of None \<Rightarrow> [] | Some n \<Rightarrow> toString n))))"

text \<open>\<^verbatim>\<open>startGame\<close> (lines 196-208).\<close>

definition startGame_queue :: "SnakeGame_queue \<Rightarrow> SnakeGame_queue" where
  "startGame_queue g = (updateGameStatus [] (g\<lparr>gameRunning := True\<rparr>))\<lparr>intervalArmed := True\<rparr>"

text \<open>
  What \<^verbatim>\<open>handleKeyEvent\<close> writes to the console once it has a direction (lines 170-175);
  the console is not part of the state, the message is returned beside it.
\<close>

datatype message =
  DirectionQueued nat
  | QueueFull
  | DirectionRejected bool bool
  | NoMessage

text \<open>\<^verbatim>\<open>handleKeyEvent\<close> (lines 108-178), run once for every listener the event reaches.\<close>

definition handleKeyEvent :: "SnakeGame_queue \<Rightarrow> KeyboardEvent \<Rightarrow> SnakeGame_queue \<times> message" where
  "handleKeyEvent g e =
     (if code e = ''Space'' \<or> key e = '' '' \<or> key e = ''Spacebar''
           \<or> keyCode e = Some 32 \<or> which e = Some 32
      then (if type e = ''keydown'' \<and> \<not> gameRunning g then startGame_queue g else g, NoMessage)
      else if \<not> gameRunning g then (g, NoMessage)
      else
        (case newDirection_queue e of
           None \<Rightarrow> (g, NoMessage)
         | Some newDirection \<Rightarrow>
             let lastDirection =
                   (if length (directionQueue g) > 0 then last (directionQueue g)
                    else direction g);
                 alreadyQueued =
                   list_ex (\<lambda>d. x d = x newDirection \<and> y d = y newDirection) (directionQueue g)
             in if \<not> alreadyQueued
                   \<and> (x lastDirection + x newDirection \<noteq> 0 \<or> y lastDirection + y newDirection \<noteq> 0)
                then
                  if length (directionQueue g) < 4
                  then (g\<lparr>directionQueue := directionQueue g @ [newDirection]\<rparr>,
                        DirectionQueued (length (directionQueue g) + 1))
                  else (g, QueueFull)
                else (g, DirectionRejected alreadyQueued
                           (x lastDirection + x newDirection = 0
                              \<and> y lastDirection + y newDirection = 0))))"

text \<open>The head of \<^verbatim>\<open>update\<close> (lines 211-219): one buffered direction is taken per tick.\<close>

definition takeQueuedDirection :: "SnakeGame_queue \<Rightarrow> SnakeGame_queue" where
  "takeQueuedDirection g =
     (case directionQueue g of
        [] \<Rightarrow> g
      | queuedDirection # rest \<Rightarrow>
          let g' = g\<lparr>directionQueue := rest\<rparr>
          in if x (direction g') + x queuedDirection \<noteq> 0
                \<or> y (direction g') + y queuedDirection \<noteq> 0
             then g'\<lparr>direction := queuedDirection\<rparr>
             else g')"

definition update_queue :: "(nat \<Rightarrow> real) \<Rightarrow> SnakeGame_queue \<Rightarrow> SnakeGame_queue outcome" where
  "update_queue rnd g = update_tail rnd (takeQueuedDirection g)"

text \<open>The callback that \<^verbatim>\<open>gameOver\<close> hands to \<^verbatim>\<open>setTimeout\<close> (lines 355-363).\<close>

definition reset_queue :: "(nat \<Rightarrow> real) \<Rightarrow> SnakeGame_queue \<Rightarrow> SnakeGame_queue outcome" where
  "reset_queue rnd g =
     (case spawnFood rnd
             (g\<lparr>snake := createInitialSnake, direction := \<lparr>x = 1, y = 0\<rparr>,
                nextDirection := \<lparr>x = 1, y = 0\<rparr>, directionQueue := [], score := 0\<rparr>) of
        None \<Rightarrow> Diverges
      | Some g' \<Rightarrow> Returns (draw g'))"

text \<open>The callback of \<^verbatim>\<open>setInterval\<close> (lines 204-207).\<close>

definition interval_queue :: "(nat \<Rightarrow> real) \<Rightarrow> SnakeGame_queue \<Rightarrow> SnakeGame_queue outcome" where
  "interval_queue rnd g = map_outcome draw (update_queue rnd g)"

text \<open>
  The constructor (lines 37-64) in a browser whose viewport is \<open>innerWidth\<close> by
  \<open>innerHeight\<close>, whose storage is \<open>saved\<close> and whose status element shows \<open>status\<close>.
\<close>

definition constructor_queue ::
  "(nat \<Rightarrow> real) \<Rightarrow> nat \<Rightarrow> nat \<Rightarrow> int option \<Rightarrow> string \<Rightarrow> SnakeGame_queue outcome" where
  "constructor_queue rnd innerWidth innerHeight saved status =
     (case resizeCanvas innerWidth innerHeight
             \<lparr>snake = [], food = \<lparr>x = 0, y = 0\<rparr>, direction = \<lparr>x = 1, y = 0\<rparr>,
              nextDirection = \<lparr>x = 1, y = 0\<rparr>, score = 0, highScore = 0, gameRunning = False,
              gridWidth = 0, gridHeight = 0, intervalArmed = False, pendingResets = 0,
              localStorage = saved, gameStatus = status, draws = 0, cursor = 0,
              directionQueue = []\<rparr> of
        Returns g \<Rightarrow>
          (case spawnFood rnd
                  (g\<lparr>snake := createInitialSnake, food := \<lparr>x = 0, y = 0\<rparr>,
                     direction := \<lparr>x = 1, y = 0\<rparr>, nextDirection := \<lparr>x = 1, y = 0\<rparr>,
                     directionQueue := [], score := 0, highScore := loadHighScore g,
                     gameRunning := False\<rparr>) of
             None \<Rightarrow> Diverges
           | Some g' \<Rightarrow> Returns (draw g'))
      | TypeError \<Rightarrow> TypeError
      | NotANumber \<Rightarrow> NotANumber
      | Diverges \<Rightarrow> Diverges)"

text \<open>
  What the browser can do to the game: deliver a key event to a listener, fire the
  interval, fire a scheduled reset, resize the window. A timer that is not armed does not
  fire, so its event leaves the state as it is.
\<close>

datatype event =
  KeyEvent KeyboardEvent
  | IntervalFires
  | TimeoutFires
  | Resize nat nat

definition step_queue :: "(nat \<Rightarrow> real) \<Rightarrow> event \<Rightarrow> SnakeGame_queue \<Rightarrow> SnakeGame_queue outcome" where
  "step_queue rnd ev g =
     (case ev of
        KeyEvent e \<Rightarrow> Returns (fst (handleKeyEvent g e))
      | IntervalFires \<Rightarrow> if intervalArmed g then interval_queue rnd g else Returns g
      | TimeoutFires \<Rightarrow>
          if pendingResets g > 0 then reset_queue rnd (g\<lparr>pendingResets := pendingResets g - 1\<rparr>)
          else Returns g
      | Resize innerWidth innerHeight \<Rightarrow> map_outcome draw (resizeCanvas innerWidth innerHeight g))"

fun run_queue :: "(nat \<Rightarrow> real) \<Rightarrow> event list \<Rightarrow> SnakeGame_queue \<Rightarrow> SnakeGame_queue outcome" where
  "run_queue rnd [] g = Returns g"
| "run_queue rnd (ev # evs) g =
     (case step_queue rnd ev g of
        Returns g' \<Rightarrow> run_queue rnd evs g'
      | TypeError \<Rightarrow> TypeError
      | NotANumber \<Rightarrow> NotANumber
      | Diverges \<Rightarrow> Diverges)"

section \<open>The single-pending variant, with pause\<close>

text \<open>The table \<^verbatim>\<open>directions\<close> of lines 491-496.\<close>

definition directions_pause :: "(string \<times> Position) list" where
  "directions_pause =
     [(''ArrowUp'', \<lparr>x = 0, y = -1\<rparr>), (''ArrowDown'', \<lparr>x = 0, y = 1\<rparr>),
      (''ArrowLeft'', \<lparr>x = -1, y = 0\<rparr>), (''ArrowRight'', \<lparr>x = 1, y = 0\<rparr>)]"

text \<open>\<^verbatim>\<open>startGame\<close> (lines 518-533) and \<^verbatim>\<open>toggleGame\<close> (lines 509-516).\<close>

definition startGame_pause :: "SnakeGame_pause \<Rightarrow> SnakeGame_pause" where
  "startGame_pause g =
     (updateGameStatus [] (g\<lparr>gameRunning := True, gamePaused := False\<rparr>))\<lparr>intervalArmed := True\<rparr>"

definition toggleGame :: "SnakeGame_pause \<Rightarrow> SnakeGame_pause" where
  "toggleGame g =
     (if \<not> gameRunning g then startGame_pause g
      else
        let g' = g\<lparr>gamePaused := \<not> gamePaused g\<rparr>
        in updateGameStatus (if gamePaused g' then ''PAUSED'' else []) g')"

text \<open>The \<^verbatim>\<open>keydown\<close> listener of \<^verbatim>\<open>setupControls\<close> (lines 482-506).\<close>

definition keydown_pause :: "SnakeGame_pause \<Rightarrow> KeyboardEvent \<Rightarrow> SnakeGame_pause" where
  "keydown_pause g e =
     (if code e = ''Space'' then toggleGame g
      else if \<not> gameRunning g \<or> gamePaused g then g
      else
        (case map_of directions_pause (code e) of
           None \<Rightarrow> g
         | Some newDirection \<Rightarrow>
             if x (direction g) + x newDirection \<noteq> 0 \<or> y (direction g) + y newDirection \<noteq> 0
             then g\<lparr>nextDirection := newDirection\<rparr>
             else g))"

text \<open>\<^verbatim>\<open>update\<close> (lines 535-557): the pending direction is copied, then the common part.\<close>

definition update_pause :: "(nat \<Rightarrow> real) \<Rightarrow> SnakeGame_pause \<Rightarrow> SnakeGame_pause outcome" where
  "update_pause rnd g = update_tail rnd (g\<lparr>direction := nextDirection g\<rparr>)"

text \<open>The callback that \<^verbatim>\<open>gameOver\<close> hands to \<^verbatim>\<open>setTimeout\<close> (lines 672-679).\<close>

definition reset_pause :: "(nat \<Rightarrow> real) \<Rightarrow> SnakeGame_pause \<Rightarrow> SnakeGame_pause outcome" where
  "reset_pause rnd g =
     (case spawnFood rnd
             (g\<lparr>snake := createInitialSnake, direction := \<lparr>x = 1, y = 0\<rparr>,
                nextDirection := \<lparr>x = 1, y = 0\<rparr>, score := 0\<rparr>) of
        None \<Rightarrow> Diverges
      | Some g' \<Rightarrow> Returns (draw g'))"

text \<open>The callback of \<^verbatim>\<open>setInterval\<close> (lines 527-532).\<close>

definition interval_pause :: "(nat \<Rightarrow> real) \<Rightarrow> SnakeGame_pause \<Rightarrow> SnakeGame_pause outcome" where
  "interval_pause rnd g =
     (if \<not> gamePaused g then map_outcome draw (update_pause rnd g) else Returns g)"

text \<open>The constructor (lines 412-439).\<close>

definition constructor_pause ::
  "(nat \<Rightarrow> real) \<Rightarrow> nat \<Rightarrow> nat \<Rightarrow> int option \<Rightarrow> string \<Rightarrow> SnakeGame_pause outcome" where
  "constructor_pause rnd innerWidth innerHeight saved status =
     (case resizeCanvas innerWidth innerHeight
             \<lparr>snake = [], food = \<lparr>x = 0, y = 0\<rparr>, direction = \<lparr>x = 1, y = 0\<rparr>,
              nextDirection = \<lparr>x = 1, y = 0\<rparr>, score = 0, highScore = 0, gameRunning = False,
              gridWidth = 0, gridHeight = 0, intervalArmed = False, pendingResets = 0,
              localStorage = saved, gameStatus = status, draws = 0, cursor = 0,
              gamePaused = False\<rparr> of
        Returns g \<Rightarrow>
          (case spawnFood rnd
                  (g\<lparr>snake := createInitialSnake, food := \<lparr>x = 0, y = 0\<rparr>,
                     direction := \<lparr>x = 1, y = 0\<rparr>, nextDirection := \<lparr>x = 1, y = 0\<rparr>,
                     score := 0, highScore := loadHighScore g, gameRunning := False,
                     gamePaused := False\<rparr>) of
             None \<Rightarrow> Diverges
           | Some g' \<Rightarrow> Returns (draw g'))
      | TypeError \<Rightarrow> TypeError
      | NotANumber \<Rightarrow> NotANumber
      | Diverges \<Rightarrow> Diverges)"

definition step_pause :: "(nat \<Rightarrow> real) \<Rightarrow> event \<Rightarrow> SnakeGame_pause \<Rightarrow> SnakeGame_pause outcome" where
  "step_pause rnd ev g =
     (case ev of
        KeyEvent e \<Rightarrow> Returns (keydown_pause g e)
      | IntervalFires \<Rightarrow> if intervalArmed g then interval_pause rnd g else Returns g
      | TimeoutFires \<Rightarrow>
          if pendingResets g > 0 then reset_pause rnd (g\<lparr>pendingResets := pendingResets g - 1\<rparr>)
          else Returns g
      | Resize innerWidth innerHeight \<Rightarrow> map_outcome draw (resizeCanvas innerWidth innerHeight g))"

fun run_pause :: "(nat \<Rightarrow> real) \<Rightarrow> event list \<Rightarrow> SnakeGame_pause \<Rightarrow> SnakeGame_pause outcome" where
  "run_pause rnd [] g = Returns g"
| "run_pause rnd (ev # evs) g =
     (case step_pause rnd ev g of
        Returns g' \<Rightarrow> run_pause rnd evs g'
      | TypeError \<Rightarrow> TypeError
      | NotANumber \<Rightarrow> NotANumber
      | Diverges \<Rightarrow> Diverges)"

section \<open>Key events that name an inherited property\<close>

text \<open>
  \<^verbatim>\<open>directions\<close> is an object literal, so reading \<^verbatim>\<open>directions[k]\<close> gives the entry of
  the table when \<open>k\<close> is one of its keys, and otherwise what \<^verbatim>\<open>Object.prototype\<close> holds
  under \<open>k\<close>: for the names below a function or an object, which is truthy and has no
  \<^verbatim>\<open>x\<close> and no \<^verbatim>\<open>y\<close>; for every other name \<^verbatim>\<open>undefined\<close>. No keyboard reports such a
  name as \<^verbatim>\<open>code\<close> or \<^verbatim>\<open>key\<close>, a script that dispatches an event can.
  \<open>handleKeyEvent\<close> and \<open>keydown_pause\<close> above take a name that is not in the table as
  naming no direction; the definitions of this section follow the program on every event.
\<close>

definition object_prototype :: "string list" where
  "object_prototype =
     [''constructor'', ''hasOwnProperty'', ''isPrototypeOf'', ''propertyIsEnumerable'',
      ''toLocaleString'', ''toString'', ''valueOf'', ''__proto__'', ''__defineGetter__'',
      ''__defineSetter__'', ''__lookupGetter__'', ''__lookupSetter__'']"

datatype property = Entry Position | Inherited | Undefined

definition property_of :: "(string \<times> Position) list \<Rightarrow> string \<Rightarrow> property" where
  "property_of table k =
     (case map_of table k of
        Some d \<Rightarrow> Entry d
      | None \<Rightarrow> if k \<in> set object_prototype then Inherited else Undefined)"

text \<open>JavaScript's \<^verbatim>\<open>a || b\<close> on such values: \<open>a\<close> unless it is \<^verbatim>\<open>undefined\<close>.\<close>

fun or_else :: "property \<Rightarrow> property \<Rightarrow> property" where
  "or_else Undefined b = b"
| "or_else a b = a"

text \<open>\<^verbatim>\<open>newDirection\<close> of lines 146-149, on every event.\<close>

definition newDirection_any :: "KeyboardEvent \<Rightarrow> property" where
  "newDirection_any e =
     or_else (property_of directions_queue (code e))
       (or_else (property_of directions_queue (key e))
          (or_else
             (property_of directions_queue (case keyCode e of None \<Rightarrow> [] | Some n \<Rightarrow> toString n))
             (property_of directions_queue (case which e of None \<Rightarrow> [] | Some n \<Rightarrow> toString n))))"

text \<open>
  \<^verbatim>\<open>handleKeyEvent\<close> (lines 108-178) on every event. With an inherited value as
  \<^verbatim>\<open>newDirection\<close>, \<^verbatim>\<open>newDirection.x\<close> and \<^verbatim>\<open>newDirection.y\<close> are \<^verbatim>\<open>undefined\<close>: no
  buffered vector has these coordinates, so \<^verbatim>\<open>alreadyQueued\<close> is false, and the sums
  with \<^verbatim>\<open>lastDirection\<close> are NaN, which is not 0, so the value counts as not opposite.
  Below the capacity the program then buffers the value, which is no vector: the queue
  has left the model (\<open>NotANumber\<close>; the tick that takes the value computes a NaN head).
\<close>

definition handleKeyEvent_any ::
  "SnakeGame_queue \<Rightarrow> KeyboardEvent \<Rightarrow> (SnakeGame_queue \<times> message) outcome" where
  "handleKeyEvent_any g e =
     (if code e = ''Space'' \<or> key e = '' '' \<or> key e = ''Spacebar''
           \<or> keyCode e = Some 32 \<or> which e = Some 32
      then Returns (if type e = ''keydown'' \<and> \<not> gameRunning g then startGame_queue g else g,
                    NoMessage)
      else if \<not> gameRunning g then Returns (g, NoMessage)
      else
        (case newDirection_any e of
           Undefined \<Rightarrow> Returns (g, NoMessage)
         | Entry newDirection \<Rightarrow>
             let lastDirection =
                   (if length (directionQueue g) > 0 then last (directionQueue g)
                    else direction g);
                 alreadyQueued =
                   list_ex (\<lambda>d. x d = x newDirection \<and> y d = y newDirection) (directionQueue g)
             in if \<not> alreadyQueued
                   \<and> (x lastDirection + x newDirection \<noteq> 0 \<or> y lastDirection + y newDirection \<noteq> 0)
                then
                  if length (directionQueue g) < 4
                  then Returns (g\<lparr>directionQueue := directionQueue g @ [newDirection]\<rparr>,
                                DirectionQueued (length (directionQueue g) + 1))
                  else Returns (g, QueueFull)
                else Returns (g, DirectionRejected alreadyQueued
                                   (x lastDirection + x newDirection = 0
                                      \<and> y lastDirection + y newDirection = 0))
         | Inherited \<Rightarrow>
             let alreadyQueued = False; notOpposite = True
             in if \<not> alreadyQueued \<and> notOpposite
                then
                  if length (directionQueue g) < 4 then NotANumber
                  else Returns (g, QueueFull)
                else Returns (g, DirectionRejected alreadyQueued (\<not> notOpposite))))"

text \<open>
  The \<^verbatim>\<open>keydown\<close> listener of the single-pending variant (lines 482-506) on every
  event: an inherited value passes the test of lines 501-502 and is stored as the
  pending direction.
\<close>

definition keydown_pause_any :: "SnakeGame_pause \<Rightarrow> KeyboardEvent \<Rightarrow> SnakeGame_pause outcome" where
  "keydown_pause_any g e =
     (if code e = ''Space'' then Returns (toggleGame g)
      else if \<not> gameRunning g \<or> gamePaused g then Returns g
      else
        (case property_of directions_pause (code e) of
           Undefined \<Rightarrow> Returns g
         | Entry newDirection \<Rightarrow>
             Returns
               (if x (direction g) + x newDirection \<noteq> 0 \<or> y (direction g) + y newDirection \<noteq> 0
                then g\<lparr>nextDirection := newDirection\<rparr>
                else g)
         | Inherited \<Rightarrow> NotANumber))"

section \<open>Notions used in the statements\<close>

text \<open>The four unit vectors.\<close>

definition is_direction :: "Position \<Rightarrow> bool" where
  "is_direction d \<longleftrightarrow>
     d = \<lparr>x = 0, y = -1\<rparr> \<or> d = \<lparr>x = 0, y = 1\<rparr> \<or> d = \<lparr>x = -1, y = 0\<rparr> \<or> d = \<lparr>x = 1, y = 0\<rparr>"

text \<open>
  Two directions are opposite when their sum is the zero vector (the tests of lines
  165-166, 215-216 and 501-502 ask for the contrary).
\<close>

definition opposite :: "Position \<Rightarrow> Position \<Rightarrow> bool" where
  "opposite a b \<longleftrightarrow> x a + x b = 0 \<and> y a + y b = 0"

text \<open>
  The direction that \<^verbatim>\<open>handleKeyEvent\<close> compares a new direction with
  (\<^verbatim>\<open>lastDirection\<close>, lines 154-156).
\<close>

definition lastDirection :: "SnakeGame_queue \<Rightarrow> Position" where
  "lastDirection g =
     (if length (directionQueue g) > 0 then last (directionQueue g) else direction g)"

text \<open>The test of line 116 for the space bar.\<close>

definition isSpace :: "KeyboardEvent \<Rightarrow> bool" where
  "isSpace e \<longleftrightarrow>
     code e = ''Space'' \<or> key e = '' '' \<or> key e = ''Spacebar''
       \<or> keyCode e = Some 32 \<or> which e = Some 32"

text \<open>
  The cell that one pass of the loop of \<^verbatim>\<open>spawnFood\<close> computes from the draws \<open>i\<close>
  and \<open>i + 1\<close>.
\<close>

definition foodAt :: "(nat \<Rightarrow> real) \<Rightarrow> 'a SnakeGame_scheme \<Rightarrow> nat \<Rightarrow> Position" where
  "foodAt rnd g i =
     \<lparr>x = \<lfloor>of_int (gridWidth g) * (0.15 :: real)\<rfloor>
            + \<lfloor>rnd i * of_int (gridWidth g - 2 * \<lfloor>of_int (gridWidth g) * (0.15 :: real)\<rfloor>)\<rfloor>,
      y = \<lfloor>of_int (gridHeight g) * (0.15 :: real)\<rfloor>
            + \<lfloor>rnd (i + 1) * of_int (gridHeight g - 2 * \<lfloor>of_int (gridHeight g) * (0.15 :: real)\<rfloor>)\<rfloor>\<rparr>"

text \<open>
  The new head that a tick computes, in each variant: after the direction has been
  resolved, from the first cell of the snake. \<open>None\<close> when the tick computes none.
\<close>

definition newHead_queue :: "SnakeGame_queue \<Rightarrow> Position option" where
  "newHead_queue g =
     (case snake g of [] \<Rightarrow> None | head # _ \<Rightarrow> newHead (takeQueuedDirection g) head)"

definition newHead_pause :: "SnakeGame_pause \<Rightarrow> Position option" where
  "newHead_pause g =
     (case snake g of [] \<Rightarrow> None | head # _ \<Rightarrow> newHead (g\<lparr>direction := nextDirection g\<rparr>) head)"

text \<open>Key events delivered one after the other, with no tick in between.\<close>

fun submit :: "SnakeGame_queue \<Rightarrow> KeyboardEvent list \<Rightarrow> SnakeGame_queue" where
  "submit g [] = g"
| "submit g (e # es) = submit (fst (handleKeyEvent g e)) es"

fun submit_pause :: "SnakeGame_pause \<Rightarrow> KeyboardEvent list \<Rightarrow> SnakeGame_pause" where
  "submit_pause g [] = g"
| "submit_pause g (e # es) = submit_pause (keydown_pause g e) es"




text \<open>
  What holds of the state whenever the browser is between two callbacks: of the fields
  both variants have, and of the input buffer of each variant.
\<close>

definition invariant :: "'a SnakeGame_scheme \<Rightarrow> bool" where
  "invariant g \<longleftrightarrow>
     0 \<le> score g \<and> 10 dvd score g \<and> food g \<notin> set (snake g) \<and> snake g \<noteq> []
       \<and> 0 < gridWidth g \<and> 0 < gridHeight g"

definition invariant_queue :: "SnakeGame_queue \<Rightarrow> bool" where
  "invariant_queue g \<longleftrightarrow>
     invariant g \<and> is_direction (direction g)
       \<and> list_all is_direction (directionQueue g) \<and> distinct (directionQueue g)"

definition invariant_pause :: "SnakeGame_pause \<Rightarrow> bool" where
  "invariant_pause g \<longleftrightarrow>
     invariant g \<and> is_direction (direction g) \<and> is_direction (nextDirection g)
       \<and> \<not> opposite (direction g) (nextDirection g)"

section \<open>Concrete inputs\<close>

text \<open>
  The state of each variant once the game has been constructed in a viewport of 1920 by
  1080 pixels (a grid of 25 by 14 cells), the first food has fallen on the cell in
  front of the snake, and the space bar has started the game.
\<close>

definition example_queue :: SnakeGame_queue where
  "example_queue =
     \<lparr>snake = createInitialSnake, food = \<lparr>x = 8, y = 8\<rparr>, direction = \<lparr>x = 1, y = 0\<rparr>,
      nextDirection = \<lparr>x = 1, y = 0\<rparr>, score = 0, highScore = 0, gameRunning = True,
      gridWidth = 25, gridHeight = 14, intervalArmed = True, pendingResets = 0,
      localStorage = None, gameStatus = [], draws = 1, cursor = 2,
      directionQueue = []\<rparr>"

definition example_pause :: SnakeGame_pause where
  "example_pause =
     \<lparr>snake = createInitialSnake, food = \<lparr>x = 8, y = 8\<rparr>, direction = \<lparr>x = 1, y = 0\<rparr>,
      nextDirection = \<lparr>x = 1, y = 0\<rparr>, score = 0, highScore = 0, gameRunning = True,
      gridWidth = 25, gridHeight = 14, intervalArmed = True, pendingResets = 0,
      localStorage = None, gameStatus = [], draws = 1, cursor = 2,
      gamePaused = False\<rparr>"

text \<open>
  A sequence of draws: the first pair gives the cell in front of the initial snake, the
  second pair the cell of its tail, every later pair a free cell.
\<close>

definition rnd1 :: "nat \<Rightarrow> real" where
  "rnd1 i =
     (if i = 0 then 3 / 10 else if i = 1 \<or> i = 3 then 3 / 5 else if i = 2 then 0 else 1 / 2)"

text \<open>A snake whose head is next to its tail, about to move onto it.\<close>

definition loop_queue :: SnakeGame_queue where
  "loop_queue =
     example_queue\<lparr>snake := [\<lparr>x = 1, y = 0\<rparr>, \<lparr>x = 0, y = 0\<rparr>, \<lparr>x = 0, y = 1\<rparr>, \<lparr>x = 1, y = 1\<rparr>],
                   direction := \<lparr>x = 0, y = 1\<rparr>\<rparr>"

definition loop_pause :: SnakeGame_pause where
  "loop_pause =
     example_pause\<lparr>snake := [\<lparr>x = 1, y = 0\<rparr>, \<lparr>x = 0, y = 0\<rparr>, \<lparr>x = 0, y = 1\<rparr>, \<lparr>x = 1, y = 1\<rparr>],
                   nextDirection := \<lparr>x = 0, y = 1\<rparr>\<rparr>"

text \<open>The event of pressing a key, as a browser reports it, and the four arrow keys.\<close>

definition keydown :: "string \<Rightarrow> nat \<Rightarrow> KeyboardEvent" where
  "keydown c n = \<lparr>type = ''keydown'', code = c, key = c, keyCode = Some n, which = Some n\<rparr>"




text \<open>
  Two games about to end. In the queue variant the snake has eaten three times (8 cells,
  score 30, above a high score of 20), moves down, has two directions buffered, and its
  head is above its tail. In the single-pending variant it has eaten once (6 cells,
  score 10, below a high score of 20), moves right with down pending, and the cell below
  its head is its tail.
\<close>

definition crash_queue :: SnakeGame_queue where
  "crash_queue =
     example_queue\<lparr>snake := [\<lparr>x = 2, y = 1\<rparr>, \<lparr>x = 2, y = 0\<rparr>, \<lparr>x = 1, y = 0\<rparr>, \<lparr>x = 0, y = 0\<rparr>,
                               \<lparr>x = 0, y = 1\<rparr>, \<lparr>x = 0, y = 2\<rparr>, \<lparr>x = 1, y = 2\<rparr>, \<lparr>x = 2, y = 2\<rparr>],
                     direction := \<lparr>x = 0, y = 1\<rparr>, score := 30, highScore := 20,
                     draws := 40, cursor := 10,
                     directionQueue := [\<lparr>x = 0, y = 1\<rparr>, \<lparr>x = -1, y = 0\<rparr>]\<rparr>"

definition crash_pause :: SnakeGame_pause where
  "crash_pause =
     example_pause\<lparr>snake := [\<lparr>x = 1, y = 0\<rparr>, \<lparr>x = 0, y = 0\<rparr>, \<lparr>x = 0, y = 1\<rparr>, \<lparr>x = 0, y = 2\<rparr>,
                               \<lparr>x = 1, y = 2\<rparr>, \<lparr>x = 1, y = 1\<rparr>],
                     nextDirection := \<lparr>x = 0, y = 1\<rparr>, score := 10, highScore := 20,
                     draws := 12, cursor := 6\<rparr>"

section \<open>Toroidal movement\<close>

lemma js_rem_wrap:
  assumes "0 \<le> a" "a < w" "d = -1 \<or> d = 0 \<or> d = 1"
  shows "js_rem (a + d + w) w = Some ((a + d) mod w)"
proof -
  have nz: "w \<noteq> 0" and nonneg: "0 \<le> a + d + w" using assms by auto
  have "sgn (a + d + w) * (\<bar>a + d + w\<bar> mod \<bar>w\<bar>) = (a + d + w) mod w"
  proof (cases "a + d + w = 0")
    case True
    then show ?thesis by simp
  next
    case False
    with nonneg have "0 < a + d + w" by simp
    with assms show ?thesis by simp
  qed
  then show ?thesis using nz by (simp add: js_rem_def)
qed

text \<open>
  C3. With positive grid dimensions, a head inside the grid and one of the four unit
  vectors as direction, the new head is the component-wise sum of head and direction
  reduced modulo the grid dimensions, and lies inside the grid.
\<close>

theorem C3_new_head_wraps:
  assumes "0 < gridWidth g" "0 < gridHeight g"
    and "0 \<le> x head" "x head < gridWidth g"
    and "0 \<le> y head" "y head < gridHeight g"
    and "is_direction (direction g)"
  shows "\<exists>nh. newHead g head = Some nh
           \<and> x nh = (x head + x (direction g)) mod gridWidth g
           \<and> y nh = (y head + y (direction g)) mod gridHeight g
           \<and> 0 \<le> x nh \<and> x nh < gridWidth g \<and> 0 \<le> y nh \<and> y nh < gridHeight g"
proof -
  have dx: "x (direction g) = -1 \<or> x (direction g) = 0 \<or> x (direction g) = 1"
    and dy: "y (direction g) = -1 \<or> y (direction g) = 0 \<or> y (direction g) = 1"
    using assms(7) by (auto simp: is_direction_def)
  have rx: "js_rem (x head + x (direction g) + gridWidth g) (gridWidth g)
              = Some ((x head + x (direction g)) mod gridWidth g)"
    using assms(3,4) dx by (rule js_rem_wrap)
  have ry: "js_rem (y head + y (direction g) + gridHeight g) (gridHeight g)
              = Some ((y head + y (direction g)) mod gridHeight g)"
    using assms(5,6) dy by (rule js_rem_wrap)
  show ?thesis using assms(1,2) by (simp add: newHead_def rx ry)
qed


theorem C3_new_head_wraps_witness:
  "0 < gridWidth (example_queue\<lparr>direction := \<lparr>x = -1, y = 0\<rparr>\<rparr>)
   \<and> is_direction (direction (example_queue\<lparr>direction := \<lparr>x = -1, y = 0\<rparr>\<rparr>))
   \<and> newHead (example_queue\<lparr>direction := \<lparr>x = -1, y = 0\<rparr>\<rparr>) \<lparr>x = 0, y = 13\<rparr>
       = Some \<lparr>x = 24, y = 13\<rparr>"
  using C3_new_head_wraps [of "example_queue\<lparr>direction := \<lparr>x = -1, y = 0\<rparr>\<rparr>" "\<lparr>x = 0, y = 13\<rparr>"]
  by (auto simp: example_queue_def is_direction_def)

section \<open>Placing the food\<close>

lemma Position_eq_iff: "(p :: Position) = q \<longleftrightarrow> x p = x q \<and> y p = y q"
  by (cases p, cases q) simp

lemma checkCollision_iff: "checkCollision g p \<longleftrightarrow> p \<in> set (snake g)"
proof -
  have "\<And>s. (x s = x p \<and> y s = y p) \<longleftrightarrow> s = p"
    by (auto simp: Position_eq_iff)
  then show ?thesis by (simp add: checkCollision_def list_ex_iff)
qed

lemma spawnFood_unfold:
  "spawnFood rnd g =
     (if checkCollision g (foodAt rnd g (cursor g))
      then spawnFood rnd (g\<lparr>cursor := cursor g + 2\<rparr>)
      else Some (g\<lparr>cursor := cursor g + 2, food := foodAt rnd g (cursor g)\<rparr>))"
  by (subst spawnFood.simps) (simp add: Let_def foodAt_def checkCollision_def)

lemma foodAt_cursor [simp]: "foodAt rnd (g\<lparr>cursor := c\<rparr>) i = foodAt rnd g i"
  by (simp add: foodAt_def)

lemma checkCollision_cursor [simp]: "checkCollision (g\<lparr>cursor := c\<rparr>) p = checkCollision g p"
  by (simp add: checkCollision_def)

lemma spawnFood_Some:
  assumes "spawnFood rnd g = Some g'"
  shows "\<exists>k. g' = g\<lparr>cursor := cursor g + 2 * Suc k, food := foodAt rnd g (cursor g + 2 * k)\<rparr>
            \<and> \<not> checkCollision g (foodAt rnd g (cursor g + 2 * k))"
  using assms
proof (induction rnd g g' rule: spawnFood.raw_induct [rotated 1, consumes 1, case_names step])
  case (step sf rnd g g')
  let ?g1 = "g\<lparr>cursor := cursor g + 2\<rparr>"
  show ?case
  proof (cases "checkCollision g (foodAt rnd g (cursor g))")
    case True
    with step.hyps have "sf rnd ?g1 = Some g'"
      by (simp add: Let_def foodAt_def checkCollision_def)
    from step.IH [OF this] obtain k where
      k: "g' = ?g1\<lparr>cursor := cursor ?g1 + 2 * Suc k, food := foodAt rnd ?g1 (cursor ?g1 + 2 * k)\<rparr>"
         "\<not> checkCollision ?g1 (foodAt rnd ?g1 (cursor ?g1 + 2 * k))"
      by blast
    have "g' = g\<lparr>cursor := cursor g + 2 * Suc (Suc k), food := foodAt rnd g (cursor g + 2 * Suc k)\<rparr>"
      using k(1) by (simp add: add.commute add.left_commute)
    moreover have "\<not> checkCollision g (foodAt rnd g (cursor g + 2 * Suc k))"
      using k(2) by (simp add: add.commute add.left_commute)
    ultimately show ?thesis by blast
  next
    case False
    with step.hyps have "g' = g\<lparr>cursor := cursor g + 2, food := foodAt rnd g (cursor g)\<rparr>"
      by (simp add: Let_def foodAt_def checkCollision_def)
    with False show ?thesis by (intro exI [of _ 0]) simp
  qed
qed

lemma spawnFood_returns:
  "\<not> checkCollision g (foodAt rnd g (cursor g + 2 * k)) \<Longrightarrow> \<exists>g'. spawnFood rnd g = Some g'"
proof (induction k arbitrary: g)
  case 0
  then show ?case by (subst spawnFood_unfold) simp
next
  case (Suc k)
  show ?case
  proof (cases "checkCollision g (foodAt rnd g (cursor g))")
    case True
    have "\<not> checkCollision (g\<lparr>cursor := cursor g + 2\<rparr>)
             (foodAt rnd (g\<lparr>cursor := cursor g + 2\<rparr>) (cursor (g\<lparr>cursor := cursor g + 2\<rparr>) + 2 * k))"
      using Suc.prems by (simp add: add.commute add.left_commute)
    from Suc.IH [OF this] True show ?thesis by (subst spawnFood_unfold) simp
  next
    case False
    then show ?thesis by (subst spawnFood_unfold) simp
  qed
qed

lemma margin_bounds:
  fixes r :: real and w :: int
  assumes "0 \<le> r" "r < 1" "0 < w"
  shows "\<lfloor>of_int w * (0.15 :: real)\<rfloor> \<le> \<lfloor>of_int w * (0.15 :: real)\<rfloor> + \<lfloor>r * of_int (w - 2 * \<lfloor>of_int w * (0.15 :: real)\<rfloor>)\<rfloor>"
    and "\<lfloor>of_int w * (0.15 :: real)\<rfloor> + \<lfloor>r * of_int (w - 2 * \<lfloor>of_int w * (0.15 :: real)\<rfloor>)\<rfloor> < w - \<lfloor>of_int w * (0.15 :: real)\<rfloor>"
    and "0 \<le> \<lfloor>of_int w * (0.15 :: real)\<rfloor>"
proof -
  define m where "m = \<lfloor>of_int w * (0.15 :: real)\<rfloor>"
  define n where "n = w - 2 * m"
  have "of_int m \<le> of_int w * (0.15 :: real)" unfolding m_def by (rule of_int_floor_le)
  then have "2 * of_int m < (of_int w :: real)" using assms(3) by simp
  then have "2 * m < w" by linarith
  then have n: "0 < n" by (simp add: n_def)
  have "0 \<le> r * of_int n" using assms(1) n by simp
  then have lo: "0 \<le> \<lfloor>r * of_int n\<rfloor>" by simp
  have "r * of_int n < of_int n" using assms(2) n by simp
  then have hi: "\<lfloor>r * of_int n\<rfloor> < n" by (simp add: floor_less_iff)
  show "\<lfloor>of_int w * (0.15 :: real)\<rfloor> \<le> \<lfloor>of_int w * (0.15 :: real)\<rfloor> + \<lfloor>r * of_int (w - 2 * \<lfloor>of_int w * (0.15 :: real)\<rfloor>)\<rfloor>"
    using lo by (simp add: m_def n_def)
  show "\<lfloor>of_int w * (0.15 :: real)\<rfloor> + \<lfloor>r * of_int (w - 2 * \<lfloor>of_int w * (0.15 :: real)\<rfloor>)\<rfloor> < w - \<lfloor>of_int w * (0.15 :: real)\<rfloor>"
    using hi unfolding m_def n_def by linarith
  have "0 \<le> of_int w * (0.15 :: real)" using assms(3) by simp
  then show "0 \<le> \<lfloor>of_int w * (0.15 :: real)\<rfloor>" by simp
qed

lemma spawnFood_fields:
  assumes "spawnFood rnd g = Some g'"
  shows "snake g' = snake g" "score g' = score g" "gameRunning g' = gameRunning g"
    "gridWidth g' = gridWidth g" "gridHeight g' = gridHeight g" "direction g' = direction g"
    "nextDirection g' = nextDirection g" "highScore g' = highScore g"
    "pendingResets g' = pendingResets g" "intervalArmed g' = intervalArmed g"
    "localStorage g' = localStorage g" "food g' \<notin> set (snake g)"
  using spawnFood_Some [OF assms] by (auto simp: checkCollision_iff)

text \<open>
  C6. Whenever \<^verbatim>\<open>spawnFood\<close> returns, in either variant, the food is on no cell of the
  snake and at least \<open>\<lfloor>0.15 * gridWidth\<rfloor>\<close> columns and \<open>\<lfloor>0.15 * gridHeight\<rfloor>\<close> rows away
  from every edge of the grid. (With \<open>spawnFood_returns\<close>: it returns as soon as one pair
  of draws gives a free cell.)
\<close>

theorem C6_spawnFood_placement:
  assumes "\<forall>i. 0 \<le> rnd i \<and> rnd i < 1"
    and "0 < gridWidth g" and "0 < gridHeight g"
    and "spawnFood rnd g = Some g'"
  shows "food g' \<notin> set (snake g') \<and> \<not> checkCollision g' (food g')
         \<and> \<lfloor>of_int (gridWidth g') * (0.15 :: real)\<rfloor> \<le> x (food g')
         \<and> x (food g') < gridWidth g' - \<lfloor>of_int (gridWidth g') * (0.15 :: real)\<rfloor>
         \<and> \<lfloor>of_int (gridHeight g') * (0.15 :: real)\<rfloor> \<le> y (food g')
         \<and> y (food g') < gridHeight g' - \<lfloor>of_int (gridHeight g') * (0.15 :: real)\<rfloor>"
proof -
  from spawnFood_Some [OF assms(4)] obtain k where
    g': "g' = g\<lparr>cursor := cursor g + 2 * Suc k, food := foodAt rnd g (cursor g + 2 * k)\<rparr>"
    and free: "\<not> checkCollision g (foodAt rnd g (cursor g + 2 * k))"
    by blast
  let ?i = "cursor g + 2 * k"
  have rx: "0 \<le> rnd ?i" "rnd ?i < 1" and ry: "0 \<le> rnd (?i + 1)" "rnd (?i + 1) < 1"
    using assms(1) by auto
  have fx: "x (food g') = \<lfloor>of_int (gridWidth g) * (0.15 :: real)\<rfloor>
              + \<lfloor>rnd ?i * of_int (gridWidth g - 2 * \<lfloor>of_int (gridWidth g) * (0.15 :: real)\<rfloor>)\<rfloor>"
    and fy: "y (food g') = \<lfloor>of_int (gridHeight g) * (0.15 :: real)\<rfloor>
              + \<lfloor>rnd (?i + 1) * of_int (gridHeight g - 2 * \<lfloor>of_int (gridHeight g) * (0.15 :: real)\<rfloor>)\<rfloor>"
    and gw: "gridWidth g' = gridWidth g" and gh: "gridHeight g' = gridHeight g"
    by (simp_all add: g' foodAt_def)
  have "food g' \<notin> set (snake g')" "\<not> checkCollision g' (food g')"
    using free by (simp_all add: g' checkCollision_iff)
  moreover note margin_bounds(1,2) [OF rx assms(2), folded fx]
    margin_bounds(1,2) [OF ry assms(3), folded fy]
  ultimately show ?thesis unfolding gw gh by blast
qed

theorem C6_spawnFood_placement_witness:
  "(\<forall>i. 0 \<le> rnd1 i \<and> rnd1 i < 1)
   \<and> spawnFood rnd1 example_queue = Some (example_queue\<lparr>cursor := 6, food := \<lparr>x = 12, y = 7\<rparr>\<rparr>)
   \<and> \<lparr>x = 12, y = 7\<rparr> \<notin> set (snake example_queue)"
proof -
  have r: "\<forall>i. 0 \<le> rnd1 i \<and> rnd1 i < 1" by (simp add: rnd1_def)
  have w: "0 < gridWidth example_queue" and h: "0 < gridHeight example_queue"
    by (simp_all add: example_queue_def)
  have s: "spawnFood rnd1 example_queue
             = Some (example_queue\<lparr>cursor := 6, food := \<lparr>x = 12, y = 7\<rparr>\<rparr>)"
    by (simp add: spawnFood.simps example_queue_def createInitialSnake_def rnd1_def)
  from C6_spawnFood_placement [OF r w h s] r s show ?thesis
    by (simp add: example_queue_def)
qed

section \<open>Collision and growth\<close>

lemma update_tail_unfold:
  assumes "snake g = head # rest" "newHead g head = Some nh"
  shows "update_tail rnd g =
           (if nh \<in> set (snake g) then Returns (gameOver g)
            else if nh = food g
              then (case spawnFood rnd (g\<lparr>snake := nh # snake g, score := score g + 10\<rparr>) of
                      None \<Rightarrow> Diverges
                    | Some g2 \<Rightarrow> Returns g2)
              else Returns (g\<lparr>snake := nh # butlast (snake g)\<rparr>))"
  using assms by (simp add: update_tail_def checkCollision_iff Position_eq_iff Let_def)

lemma gameOver_fields [simp]:
  "snake (gameOver g) = snake g" "food (gameOver g) = food g" "score (gameOver g) = score g"
  "gameRunning (gameOver g) = False" "intervalArmed (gameOver g) = False"
  "pendingResets (gameOver g) = Suc (pendingResets g)"
  "gridWidth (gameOver g) = gridWidth g" "gridHeight (gameOver g) = gridHeight g"
  "direction (gameOver g) = direction g" "nextDirection (gameOver g) = nextDirection g"
  "cursor (gameOver g) = cursor g" "draws (gameOver g) = draws g"
  by (simp_all add: gameOver_def Let_def updateGameStatus_def saveHighScore_def)

lemma update_tail_game_over:
  assumes "snake g = head # rest" "newHead g head = Some nh"
  shows "update_tail rnd g = Returns (gameOver g) \<longleftrightarrow> nh \<in> set (snake g)"
proof (cases "nh \<in> set (snake g)")
  case True
  then show ?thesis by (simp add: update_tail_unfold [OF assms])
next
  case False
  have "update_tail rnd g \<noteq> Returns (gameOver g)"
  proof
    assume eq: "update_tail rnd g = Returns (gameOver g)"
    show False
    proof (cases "nh = food g")
      case True
      with False eq obtain g2 where
        "spawnFood rnd (g\<lparr>snake := nh # snake g, score := score g + 10\<rparr>) = Some g2"
        "g2 = gameOver g"
        by (auto simp: update_tail_unfold [OF assms] split: option.splits)
      from spawnFood_fields(9) [OF this(1)] this(2) show False by simp
    next
      case nf: False
      with False eq have "g\<lparr>snake := nh # butlast (snake g)\<rparr> = gameOver g"
        by (simp add: update_tail_unfold [OF assms])
      then have "pendingResets (g\<lparr>snake := nh # butlast (snake g)\<rparr>) = pendingResets (gameOver g)"
        by (rule arg_cong)
      then show False by simp
    qed
  qed
  with False show ?thesis by simp
qed

lemma update_tail_running:
  assumes "snake g = head # rest" "newHead g head = Some nh" "nh \<notin> set (snake g)"
    and "update_tail rnd g = Returns g'"
  shows "gameRunning g' = gameRunning g"
proof (cases "nh = food g")
  case True
  with assms obtain g2 where
    "spawnFood rnd (g\<lparr>snake := nh # snake g, score := score g + 10\<rparr>) = Some g2" "g' = g2"
    by (auto simp: update_tail_unfold [OF assms(1,2)] split: option.splits)
  from spawnFood_fields(3) [OF this(1)] this(2) show ?thesis by simp
next
  case False
  with assms show ?thesis by (auto simp: update_tail_unfold [OF assms(1,2)])
qed

lemma update_tail_length_same:
  assumes "snake g = head # rest" "newHead g head = Some nh" "nh \<notin> set (snake g)" "nh \<noteq> food g"
  shows "update_tail rnd g = Returns (g\<lparr>snake := nh # butlast (snake g)\<rparr>)"
  using assms by (simp add: update_tail_unfold [OF assms(1,2)])

lemma update_tail_length_grows:
  assumes "snake g = head # rest" "newHead g head = Some nh" "nh \<notin> set (snake g)" "nh = food g"
    and "update_tail rnd g = Returns g'"
  shows "snake g' = nh # snake g" "score g' = score g + 10" "food g' \<notin> set (snake g')"
proof -
  from assms obtain g2 where
    sp: "spawnFood rnd (g\<lparr>snake := nh # snake g, score := score g + 10\<rparr>) = Some g2" and "g' = g2"
    by (auto simp: update_tail_unfold [OF assms(1,2)] split: option.splits)
  from spawnFood_fields(1,2,12) [OF sp] \<open>g' = g2\<close>
  show "snake g' = nh # snake g" "score g' = score g + 10" "food g' \<notin> set (snake g')"
    by simp_all
qed

lemma update_tail_eats_returns:
  assumes "snake g = head # rest" "newHead g head = Some nh" "nh \<notin> set (snake g)" "nh = food g"
    and "foodAt rnd g (cursor g + 2 * k) \<notin> set (nh # snake g)"
  shows "\<exists>g'. update_tail rnd g = Returns g'"
proof -
  let ?g1 = "g\<lparr>snake := nh # snake g, score := score g + 10\<rparr>"
  have "\<not> checkCollision ?g1 (foodAt rnd ?g1 (cursor ?g1 + 2 * k))"
    using assms(5) by (simp add: checkCollision_iff foodAt_def)
  from spawnFood_returns [OF this] obtain g2 where "spawnFood rnd ?g1 = Some g2" ..
  with assms show ?thesis by (simp add: update_tail_unfold [OF assms(1,2)])
qed

lemma takeQueuedDirection_fields [simp]:
  "snake (takeQueuedDirection g) = snake g" "food (takeQueuedDirection g) = food g"
  "score (takeQueuedDirection g) = score g" "gameRunning (takeQueuedDirection g) = gameRunning g"
  "gridWidth (takeQueuedDirection g) = gridWidth g" "gridHeight (takeQueuedDirection g) = gridHeight g"
  "cursor (takeQueuedDirection g) = cursor g" "highScore (takeQueuedDirection g) = highScore g"
  "pendingResets (takeQueuedDirection g) = pendingResets g"
  "intervalArmed (takeQueuedDirection g) = intervalArmed g"
  "localStorage (takeQueuedDirection g) = localStorage g"
  "nextDirection (takeQueuedDirection g) = nextDirection g"
  by (simp_all add: takeQueuedDirection_def Let_def split: list.splits)

lemma newHead_queue_SomeD:
  assumes "newHead_queue g = Some nh"
  obtains head rest where "snake (takeQueuedDirection g) = head # rest" "snake g = head # rest"
    "newHead (takeQueuedDirection g) head = Some nh"
  using assms by (auto simp: newHead_queue_def split: list.splits)

lemma newHead_pause_SomeD:
  assumes "newHead_pause g = Some nh"
  obtains head rest where "snake (g\<lparr>direction := nextDirection g\<rparr>) = head # rest"
    "snake g = head # rest" "newHead (g\<lparr>direction := nextDirection g\<rparr>) head = Some nh"
  using assms by (auto simp: newHead_pause_def split: list.splits)

text \<open>
  C1. In both variants a tick ends the game exactly when the head it computes is one of
  the cells of the snake before the move; the cell of the tail, which the move would
  vacate, counts as well.
\<close>

theorem C1_collision_iff_game_over:
  assumes "newHead_queue g = Some nh" and "newHead_pause p = Some nh'"
  shows "(update_queue rnd g = Returns (gameOver (takeQueuedDirection g)) \<longleftrightarrow> nh \<in> set (snake g))
       \<and> (gameRunning g \<longrightarrow>
            ((\<exists>g'. update_queue rnd g = Returns g' \<and> \<not> gameRunning g') \<longleftrightarrow> nh \<in> set (snake g)))
       \<and> (nh = last (snake g) \<longrightarrow> update_queue rnd g = Returns (gameOver (takeQueuedDirection g)))
       \<and> (update_pause rnd p = Returns (gameOver (p\<lparr>direction := nextDirection p\<rparr>))
            \<longleftrightarrow> nh' \<in> set (snake p))
       \<and> (gameRunning p \<longrightarrow>
            ((\<exists>p'. update_pause rnd p = Returns p' \<and> \<not> gameRunning p') \<longleftrightarrow> nh' \<in> set (snake p)))
       \<and> (nh' = last (snake p) \<longrightarrow>
            update_pause rnd p = Returns (gameOver (p\<lparr>direction := nextDirection p\<rparr>)))"
proof -
  have tail: "update_tail rnd s = Returns (gameOver s) \<longleftrightarrow> h \<in> set (snake s)"
    and run: "gameRunning s \<Longrightarrow>
               (\<exists>s'. update_tail rnd s = Returns s' \<and> \<not> gameRunning s') \<longleftrightarrow> h \<in> set (snake s)"
    and last: "h = last (snake s) \<Longrightarrow> update_tail rnd s = Returns (gameOver s)"
    if s: "snake s = head # rest" "newHead s head = Some h"
    for s :: "'a SnakeGame_scheme" and head rest h
  proof -
    show iff: "update_tail rnd s = Returns (gameOver s) \<longleftrightarrow> h \<in> set (snake s)"
      by (rule update_tail_game_over [OF s])
    show "(\<exists>s'. update_tail rnd s = Returns s' \<and> \<not> gameRunning s') \<longleftrightarrow> h \<in> set (snake s)"
      if "gameRunning s"
    proof
      assume "\<exists>s'. update_tail rnd s = Returns s' \<and> \<not> gameRunning s'"
      then obtain s' where s': "update_tail rnd s = Returns s'" "\<not> gameRunning s'" by blast
      show "h \<in> set (snake s)"
      proof (rule ccontr)
        assume "h \<notin> set (snake s)"
        from update_tail_running [OF s this s'(1)] s'(2) that show False by simp
      qed
    next
      assume "h \<in> set (snake s)"
      with iff have "update_tail rnd s = Returns (gameOver s)" by simp
      then show "\<exists>s'. update_tail rnd s = Returns s' \<and> \<not> gameRunning s'" by simp
    qed
    show "update_tail rnd s = Returns (gameOver s)" if "h = last (snake s)"
    proof -
      have "h \<in> set (snake s)" using that s(1) by simp
      with iff show ?thesis by simp
    qed
  qed
  from assms(1) obtain head rest where
    q: "snake (takeQueuedDirection g) = head # rest" "snake g = head # rest"
       "newHead (takeQueuedDirection g) head = Some nh"
    by (rule newHead_queue_SomeD)
  from assms(2) obtain head' rest' where
    p: "snake (p\<lparr>direction := nextDirection p\<rparr>) = head' # rest'" "snake p = head' # rest'"
       "newHead (p\<lparr>direction := nextDirection p\<rparr>) head' = Some nh'"
    by (rule newHead_pause_SomeD)
  from tail [OF q(1,3)] run [OF q(1,3)] last [OF q(1,3)]
       tail [OF p(1,3)] run [OF p(1,3)] last [OF p(1,3)]
  show ?thesis by (simp add: update_queue_def update_pause_def)
qed

theorem C1_collision_iff_game_over_witness:
  "newHead_queue loop_queue = Some \<lparr>x = 1, y = 1\<rparr>
   \<and> newHead_pause loop_pause = Some \<lparr>x = 1, y = 1\<rparr>
   \<and> \<lparr>x = 1, y = 1\<rparr> = last (snake loop_queue)
   \<and> update_queue rnd1 loop_queue = Returns (gameOver (takeQueuedDirection loop_queue))
   \<and> update_pause rnd1 loop_pause
       = Returns (gameOver (loop_pause\<lparr>direction := nextDirection loop_pause\<rparr>))"
proof -
  have q: "newHead_queue loop_queue = Some \<lparr>x = 1, y = 1\<rparr>"
    by (simp add: newHead_queue_def loop_queue_def example_queue_def takeQueuedDirection_def
        newHead_def js_rem_def)
  have p: "newHead_pause loop_pause = Some \<lparr>x = 1, y = 1\<rparr>"
    by (simp add: newHead_pause_def loop_pause_def example_pause_def newHead_def js_rem_def)
  have l: "\<lparr>x = 1, y = 1\<rparr> = last (snake loop_queue)" "\<lparr>x = 1, y = 1\<rparr> = last (snake loop_pause)"
    by (simp_all add: loop_queue_def loop_pause_def)
  from C1_collision_iff_game_over [OF q p, of rnd1] q p l show ?thesis by simp
qed

text \<open>
  The scenario of the specification: the snake (5,5), (4,5), (3,5), (2,5), (1,5) moving
  in direction (-1,0) computes the head (4,5), its own second cell, and the game is over.
\<close>

lemma collision_scenario:
  "update_queue rnd
     (example_queue\<lparr>snake := [\<lparr>x = 5, y = 5\<rparr>, \<lparr>x = 4, y = 5\<rparr>, \<lparr>x = 3, y = 5\<rparr>,
                               \<lparr>x = 2, y = 5\<rparr>, \<lparr>x = 1, y = 5\<rparr>],
                     direction := \<lparr>x = - 1, y = 0\<rparr>\<rparr>)
   = Returns
       (example_queue\<lparr>snake := [\<lparr>x = 5, y = 5\<rparr>, \<lparr>x = 4, y = 5\<rparr>, \<lparr>x = 3, y = 5\<rparr>,
                                 \<lparr>x = 2, y = 5\<rparr>, \<lparr>x = 1, y = 5\<rparr>],
                       direction := \<lparr>x = - 1, y = 0\<rparr>, gameRunning := False,
                       intervalArmed := False, pendingResets := 1,
                       gameStatus := ''GAME OVER! Press SPACE to Play Again''\<rparr>)"
  by (simp add: update_queue_def update_tail_def takeQueuedDirection_def example_queue_def
      newHead_def js_rem_def checkCollision_def gameOver_def updateGameStatus_def)

lemma update_tail_length:
  fixes s :: "'a SnakeGame_scheme"
  assumes "snake s = head # rest" "newHead s head = Some h" "h \<notin> set (snake s)"
  shows "h \<noteq> food s \<Longrightarrow>
           \<exists>s'. update_tail rnd s = Returns s' \<and> length (snake s') = length (snake s)"
    and "h = food s \<Longrightarrow>
           \<forall>s'. update_tail rnd s = Returns s' \<longrightarrow> length (snake s') = length (snake s) + 1"
    and "h = food s \<Longrightarrow>
           \<forall>k. foodAt rnd s (cursor s + 2 * k) \<notin> set (h # snake s)
                 \<longrightarrow> (\<exists>s'. update_tail rnd s = Returns s')"
proof -
  show "\<exists>s'. update_tail rnd s = Returns s' \<and> length (snake s') = length (snake s)"
    if "h \<noteq> food s"
    using update_tail_length_same [OF assms that, of rnd] assms(1) by simp
  show "\<forall>s'. update_tail rnd s = Returns s' \<longrightarrow> length (snake s') = length (snake s) + 1"
    if "h = food s"
    using update_tail_length_grows(1) [OF assms that] by simp
  show "\<forall>k. foodAt rnd s (cursor s + 2 * k) \<notin> set (h # snake s)
               \<longrightarrow> (\<exists>s'. update_tail rnd s = Returns s')"
    if "h = food s"
    using update_tail_eats_returns [OF assms that] by blast
qed

text \<open>
  C2. In both variants, a tick that does not end the game leaves the length of the snake
  as it was when the new head is not the food cell (such a tick always returns), and
  makes it one longer when the new head is the food cell (such a tick returns as soon as
  one pair of draws gives a free cell for the food).
\<close>

theorem C2_snake_length:
  assumes "newHead_queue g = Some nh" and "nh \<notin> set (snake g)"
    and "newHead_pause p = Some nh'" and "nh' \<notin> set (snake p)"
  shows "(nh \<noteq> food g \<longrightarrow>
            (\<exists>g'. update_queue rnd g = Returns g' \<and> length (snake g') = length (snake g)))
       \<and> (nh = food g \<longrightarrow>
            (\<forall>g'. update_queue rnd g = Returns g' \<longrightarrow> length (snake g') = length (snake g) + 1)
          \<and> (\<forall>k. foodAt rnd g (cursor g + 2 * k) \<notin> set (nh # snake g)
                  \<longrightarrow> (\<exists>g'. update_queue rnd g = Returns g')))
       \<and> (nh' \<noteq> food p \<longrightarrow>
            (\<exists>p'. update_pause rnd p = Returns p' \<and> length (snake p') = length (snake p)))
       \<and> (nh' = food p \<longrightarrow>
            (\<forall>p'. update_pause rnd p = Returns p' \<longrightarrow> length (snake p') = length (snake p) + 1)
          \<and> (\<forall>k. foodAt rnd p (cursor p + 2 * k) \<notin> set (nh' # snake p)
                  \<longrightarrow> (\<exists>p'. update_pause rnd p = Returns p')))"
proof -
  from assms(1) obtain head rest where
    q: "snake (takeQueuedDirection g) = head # rest" "snake g = head # rest"
       "newHead (takeQueuedDirection g) head = Some nh"
    by (rule newHead_queue_SomeD)
  from assms(3) obtain head' rest' where
    p: "snake (p\<lparr>direction := nextDirection p\<rparr>) = head' # rest'" "snake p = head' # rest'"
       "newHead (p\<lparr>direction := nextDirection p\<rparr>) head' = Some nh'"
    by (rule newHead_pause_SomeD)
  have nq: "nh \<notin> set (snake (takeQueuedDirection g))" using assms(2) by simp
  have np: "nh' \<notin> set (snake (p\<lparr>direction := nextDirection p\<rparr>))" using assms(4) by simp
  have fq: "foodAt rnd (takeQueuedDirection g) = foodAt rnd g"
    and fp: "foodAt rnd (p\<lparr>direction := nextDirection p\<rparr>) = foodAt rnd p"
    by (simp_all add: foodAt_def fun_eq_iff)
  from update_tail_length [OF q(1,3) nq, of rnd] update_tail_length [OF p(1,3) np, of rnd]
  show ?thesis by (simp add: update_queue_def update_pause_def fq fp)
qed

theorem C2_snake_length_witness:
  "newHead_queue example_queue = Some \<lparr>x = 8, y = 8\<rparr>
   \<and> \<lparr>x = 8, y = 8\<rparr> \<notin> set (snake example_queue)
   \<and> newHead_pause (example_pause\<lparr>food := \<lparr>x = 12, y = 7\<rparr>\<rparr>) = Some \<lparr>x = 8, y = 8\<rparr>
   \<and> \<lparr>x = 8, y = 8\<rparr> \<notin> set (snake (example_pause\<lparr>food := \<lparr>x = 12, y = 7\<rparr>\<rparr>))
   \<and> update_queue rnd1 example_queue
       = Returns (example_queue\<lparr>snake := \<lparr>x = 8, y = 8\<rparr> # createInitialSnake, score := 10,
                                 cursor := 6, food := \<lparr>x = 12, y = 7\<rparr>\<rparr>)
   \<and> (\<exists>g'. update_queue rnd1 example_queue = Returns g' \<and> length (snake g') = 6)
   \<and> (\<exists>p'. update_pause rnd1 (example_pause\<lparr>food := \<lparr>x = 12, y = 7\<rparr>\<rparr>) = Returns p'
           \<and> length (snake p') = 5)"
proof -
  let ?p = "example_pause\<lparr>food := \<lparr>x = 12, y = 7\<rparr>\<rparr>"
  have q: "newHead_queue example_queue = Some \<lparr>x = 8, y = 8\<rparr>"
    by (simp add: newHead_queue_def example_queue_def takeQueuedDirection_def
        createInitialSnake_def newHead_def js_rem_def)
  have nq: "\<lparr>x = 8, y = 8\<rparr> \<notin> set (snake example_queue)"
    by (simp add: example_queue_def createInitialSnake_def)
  have p: "newHead_pause ?p = Some \<lparr>x = 8, y = 8\<rparr>"
    by (simp add: newHead_pause_def example_pause_def createInitialSnake_def newHead_def js_rem_def)
  have np: "\<lparr>x = 8, y = 8\<rparr> \<notin> set (snake ?p)"
    by (simp add: example_pause_def createInitialSnake_def)
  have u: "update_queue rnd1 example_queue
       = Returns (example_queue\<lparr>snake := \<lparr>x = 8, y = 8\<rparr> # createInitialSnake, score := 10,
                                 cursor := 6, food := \<lparr>x = 12, y = 7\<rparr>\<rparr>)"
    by (simp add: update_queue_def update_tail_def takeQueuedDirection_def example_queue_def
        createInitialSnake_def newHead_def js_rem_def checkCollision_def spawnFood.simps rnd1_def)
  have f: "\<lparr>x = 8, y = 8\<rparr> = food example_queue" "\<lparr>x = 8, y = 8\<rparr> \<noteq> food ?p"
    by (simp_all add: example_queue_def example_pause_def)
  have l: "length (snake example_queue) + 1 = 6" "length (snake ?p) = 5"
    by (simp_all add: example_queue_def example_pause_def createInitialSnake_def)
  note C = C2_snake_length [OF q nq p np, of rnd1]
  from C f(1) have "\<forall>g'. update_queue rnd1 example_queue = Returns g'
                      \<longrightarrow> length (snake g') = length (snake example_queue) + 1"
    by blast
  then have "\<forall>g'. update_queue rnd1 example_queue = Returns g' \<longrightarrow> length (snake g') = 6"
    unfolding l(1) .
  with u have A: "\<exists>g'. update_queue rnd1 example_queue = Returns g' \<and> length (snake g') = 6"
    by blast
  from C f(2) have "\<exists>p'. update_pause rnd1 ?p = Returns p' \<and> length (snake p') = length (snake ?p)"
    by blast
  then have B: "\<exists>p'. update_pause rnd1 ?p = Returns p' \<and> length (snake p') = 5"
    unfolding l(2) .
  from q nq p np u A B show ?thesis by blast
qed

section \<open>Rejected reversals\<close>

text \<open>
  C4. Submitting the opposite of the comparison direction changes nothing: in the queue
  variant (comparison with the last buffered direction, or the current one when nothing
  is buffered) the handler leaves the state as it is and reports a rejection for
  being opposite; in the single-pending variant (comparison with the current
  direction) the listener leaves the state as it is. The next tick is therefore the
  tick that would have run without the submission.
\<close>

theorem C4_opposite_rejected:
  assumes "gameRunning g" and "\<not> isSpace e"
    and "newDirection_queue e
           = Some \<lparr>x = - x (lastDirection g), y = - y (lastDirection g)\<rparr>"
    and "gameRunning p" and "\<not> gamePaused p" and "code e' \<noteq> ''Space''"
    and "map_of directions_pause (code e')
           = Some \<lparr>x = - x (direction p), y = - y (direction p)\<rparr>"
  shows "fst (handleKeyEvent g e) = g
       \<and> (\<exists>queued. snd (handleKeyEvent g e) = DirectionRejected queued True)
       \<and> update_queue rnd (fst (handleKeyEvent g e)) = update_queue rnd g
       \<and> keydown_pause p e' = p
       \<and> update_pause rnd (keydown_pause p e') = update_pause rnd p"
proof -
  have q: "fst (handleKeyEvent g e) = g"
    "\<exists>queued. snd (handleKeyEvent g e) = DirectionRejected queued True"
    using assms(1-3) by (simp_all add: handleKeyEvent_def isSpace_def lastDirection_def Let_def)
  have p: "keydown_pause p e' = p"
    using assms(4-7) by (simp add: keydown_pause_def)
  from q p show ?thesis by simp
qed

theorem C4_opposite_rejected_witness:
  "gameRunning example_queue \<and> \<not> isSpace (keydown ''ArrowLeft'' 37)
   \<and> lastDirection example_queue = \<lparr>x = 1, y = 0\<rparr>
   \<and> newDirection_queue (keydown ''ArrowLeft'' 37) = Some \<lparr>x = - 1, y = 0\<rparr>
   \<and> direction example_pause = \<lparr>x = 1, y = 0\<rparr>
   \<and> map_of directions_pause (code (keydown ''ArrowLeft'' 37)) = Some \<lparr>x = - 1, y = 0\<rparr>
   \<and> handleKeyEvent example_queue (keydown ''ArrowLeft'' 37)
       = (example_queue, DirectionRejected False True)
   \<and> keydown_pause example_pause (keydown ''ArrowLeft'' 37) = example_pause"
proof -
  have 1: "gameRunning example_queue" by (simp add: example_queue_def)
  have 2: "\<not> isSpace (keydown ''ArrowLeft'' 37)" by (simp add: isSpace_def keydown_def)
  have l: "lastDirection example_queue = \<lparr>x = 1, y = 0\<rparr>"
    by (simp add: lastDirection_def example_queue_def)
  have n: "newDirection_queue (keydown ''ArrowLeft'' 37) = Some \<lparr>x = - 1, y = 0\<rparr>"
    by (simp add: newDirection_queue_def keydown_def directions_queue_def)
  have 3: "newDirection_queue (keydown ''ArrowLeft'' 37)
             = Some \<lparr>x = - x (lastDirection example_queue), y = - y (lastDirection example_queue)\<rparr>"
    by (simp add: l n)
  have 4: "gameRunning example_pause" and 5: "\<not> gamePaused example_pause"
    by (simp_all add: example_pause_def)
  have 6: "code (keydown ''ArrowLeft'' 37) \<noteq> ''Space''" by (simp add: keydown_def)
  have d: "direction example_pause = \<lparr>x = 1, y = 0\<rparr>" by (simp add: example_pause_def)
  have m: "map_of directions_pause (code (keydown ''ArrowLeft'' 37)) = Some \<lparr>x = - 1, y = 0\<rparr>"
    by (simp add: keydown_def directions_pause_def)
  have 7: "map_of directions_pause (code (keydown ''ArrowLeft'' 37))
             = Some \<lparr>x = - x (direction example_pause), y = - y (direction example_pause)\<rparr>"
    by (simp add: d m)
  have v: "snd (handleKeyEvent example_queue (keydown ''ArrowLeft'' 37))
             = DirectionRejected False True"
    using 1 2 n by (simp add: handleKeyEvent_def isSpace_def example_queue_def Let_def)
  from C4_opposite_rejected [OF 1 2 3 4 5 6 7, of rnd1] v 1 2 l n d m show ?thesis
    by (simp add: prod_eq_iff)
qed

section \<open>Pause\<close>

text \<open>
  C9. In the variant with pause, the space bar pressed while the game runs unpaused sets
  \<^verbatim>\<open>gamePaused\<close> and changes nothing but it and the status text, so the snake, the food
  and the score stay as they are; and while \<^verbatim>\<open>gamePaused\<close> is set, the interval's
  callback returns the state as it is: nothing is updated and nothing is drawn.
\<close>

theorem C9_pause:
  assumes "gameRunning p" and "\<not> gamePaused p" and "code e = ''Space''" and "gamePaused q"
  shows "keydown_pause p e = p\<lparr>gameStatus := ''PAUSED'', gamePaused := True\<rparr>
       \<and> toggleGame p = p\<lparr>gameStatus := ''PAUSED'', gamePaused := True\<rparr>
       \<and> gamePaused (toggleGame p)
       \<and> snake (toggleGame p) = snake p \<and> food (toggleGame p) = food p
       \<and> score (toggleGame p) = score p
       \<and> interval_pause rnd q = Returns q
       \<and> interval_pause rnd (toggleGame p) = Returns (toggleGame p)
       \<and> draws (toggleGame p) = draws p"
  using assms
  by (simp add: keydown_pause_def toggleGame_def updateGameStatus_def interval_pause_def Let_def)

theorem C9_pause_witness:
  "gameRunning example_pause \<and> \<not> gamePaused example_pause
   \<and> code (keydown ''Space'' 32) = ''Space''
   \<and> keydown_pause example_pause (keydown ''Space'' 32)
       = example_pause\<lparr>gameStatus := ''PAUSED'', gamePaused := True\<rparr>
   \<and> interval_pause rnd1 (example_pause\<lparr>gameStatus := ''PAUSED'', gamePaused := True\<rparr>)
       = Returns (example_pause\<lparr>gameStatus := ''PAUSED'', gamePaused := True\<rparr>)"
proof -
  have 1: "gameRunning example_pause" and 2: "\<not> gamePaused example_pause"
    by (simp_all add: example_pause_def)
  have 3: "code (keydown ''Space'' 32) = ''Space''" by (simp add: keydown_def)
  have 4: "gamePaused (example_pause\<lparr>gameStatus := ''PAUSED'', gamePaused := True\<rparr>)" by simp
  from C9_pause [OF 1 2 3 4, of rnd1] 1 2 3 show ?thesis by simp
qed

section \<open>Invariants of the reachable states\<close>

lemma newHead_Some:
  assumes "gridWidth g \<noteq> 0" "gridHeight g \<noteq> 0"
  shows "\<exists>nh. newHead g head = Some nh"
  using assms by (simp add: newHead_def js_rem_def)

lemma update_tail_Returns:
  assumes "update_tail rnd g = Returns g'"
  obtains (over) "g' = gameOver g"
  | (eats) nh k f where "g' = g\<lparr>snake := nh # snake g, score := score g + 10,
                                 cursor := k, food := f\<rparr>"
      "nh = food g" "nh \<notin> set (snake g)" "f \<notin> set (nh # snake g)"
  | (moves) nh where "g' = g\<lparr>snake := nh # butlast (snake g)\<rparr>" "nh \<noteq> food g"
      "nh \<notin> set (snake g)"
proof (cases "snake g")
  case Nil
  with assms show ?thesis by (simp add: update_tail_def)
next
  case (Cons head rest)
  show ?thesis
  proof (cases "newHead g head")
    case None
    with Cons assms show ?thesis by (simp add: update_tail_def)
  next
    case (Some nh)
    note unf = update_tail_unfold [OF Cons Some, of rnd]
    show ?thesis
    proof (cases "nh \<in> set (snake g)")
      case True
      with assms unf show ?thesis by (auto intro: over)
    next
      case nin: False
      show ?thesis
      proof (cases "nh = food g")
        case True
        with nin assms unf obtain g2 where
          sp: "spawnFood rnd (g\<lparr>snake := nh # snake g, score := score g + 10\<rparr>) = Some g2"
          and "g' = g2"
          by (auto split: option.splits)
        from spawnFood_Some [OF sp] \<open>g' = g2\<close> obtain k where
          k: "g' = g\<lparr>snake := nh # snake g, score := score g + 10,
                  cursor := cursor g + 2 * Suc k,
                  food := foodAt rnd g (cursor g + 2 * k)\<rparr>"
          "foodAt rnd g (cursor g + 2 * k) \<notin> set (nh # snake g)"
          by (auto simp: checkCollision_iff foodAt_def)
        note k(1) True nin k(2)
        then show ?thesis by (rule eats)
      next
        case False
        with nin assms unf show ?thesis by (auto intro: moves)
      qed
    qed
  qed
qed

lemma invariant_update_tail:
  assumes "invariant g" "update_tail rnd g = Returns g'"
  shows "invariant g'"
  using assms(2)
proof (cases rule: update_tail_Returns)
  case over
  with assms(1) show ?thesis by (simp add: invariant_def)
next
  case (eats nh k f)
  have "invariant (g\<lparr>snake := nh # snake g, score := score g + 10, cursor := k, food := f\<rparr>)"
    using assms(1) eats(4) by (simp add: invariant_def)
  with eats(1) show ?thesis by simp
next
  case (moves nh)
  have "invariant (g\<lparr>snake := nh # butlast (snake g)\<rparr>)"
    using assms(1) moves(2) by (auto simp: invariant_def dest: in_set_butlastD)
  with moves(1) show ?thesis by simp
qed

lemma update_tail_no_error:
  assumes "invariant g"
  shows "update_tail rnd g \<noteq> TypeError" "update_tail rnd g \<noteq> NotANumber"
proof -
  from assms obtain head rest where s: "snake g = head # rest"
    by (cases "snake g") (auto simp: invariant_def)
  from assms obtain nh where n: "newHead g head = Some nh"
    using newHead_Some [of g head] by (auto simp: invariant_def)
  show "update_tail rnd g \<noteq> TypeError" "update_tail rnd g \<noteq> NotANumber"
    by (simp_all add: update_tail_unfold [OF s n] split: option.splits)
qed

lemma update_tail_score:
  assumes "invariant g" "snake g = head # rest" "newHead g head = Some nh"
    and "update_tail rnd g = Returns g'"
  shows "score g' = (if nh = food g then score g + 10 else score g)"
proof (cases "nh \<in> set (snake g)")
  case True
  with assms(1) have "nh \<noteq> food g" by (auto simp: invariant_def)
  moreover from True assms(4) have "g' = gameOver g"
    by (simp add: update_tail_unfold [OF assms(2,3)])
  ultimately show ?thesis by simp
next
  case nin: False
  show ?thesis
  proof (cases "nh = food g")
    case True
    from update_tail_length_grows(2) [OF assms(2,3) nin True assms(4)] True show ?thesis by simp
  next
    case False
    with nin assms(4) show ?thesis by (auto simp: update_tail_unfold [OF assms(2,3)])
  qed
qed

lemma resizeCanvas_Returns:
  assumes "resizeCanvas w h g = Returns g'"
  obtains a b where "g' = g\<lparr>gridWidth := a, gridHeight := b\<rparr>" "25 \<le> a" "14 \<le> b"
proof -
  define t where "t = \<lfloor>min (of_nat w / 25) (of_nat h / 14 :: real)\<rfloor>"
  from assms have t0: "t \<noteq> 0"
    and g': "g' = g\<lparr>gridWidth := \<lfloor>of_nat w / (of_int t :: real)\<rfloor>,
                    gridHeight := \<lfloor>of_nat h / (of_int t :: real)\<rfloor>\<rparr>"
    by (auto simp: resizeCanvas_def Let_def t_def split: if_splits)
  have "0 \<le> min (of_nat w / 25) (of_nat h / 14 :: real)" by simp
  then have "0 \<le> t" unfolding t_def by simp
  with t0 have tpos: "0 < t" by simp
  have le: "of_int t \<le> min (of_nat w / 25) (of_nat h / 14 :: real)"
    unfolding t_def by (rule of_int_floor_le)
  then have "of_int t \<le> (of_nat w / 25 :: real)" "of_int t \<le> (of_nat h / 14 :: real)" by simp_all
  then have "25 * of_int t \<le> (of_nat w :: real)" "14 * of_int t \<le> (of_nat h :: real)" by simp_all
  with tpos have "25 \<le> of_nat w / (of_int t :: real)" "14 \<le> of_nat h / (of_int t :: real)"
    by (simp_all add: pos_le_divide_eq)
  then have "25 \<le> \<lfloor>of_nat w / (of_int t :: real)\<rfloor>" "14 \<le> \<lfloor>of_nat h / (of_int t :: real)\<rfloor>"
    by (simp_all add: le_floor_iff)
  with g' show ?thesis by (rule that)
qed

lemma invariant_draw [simp]: "invariant (draw g) = invariant g"
  by (simp add: invariant_def draw_def)

lemma invariant_gameOver [simp]: "invariant (gameOver g) = invariant g"
  by (simp add: invariant_def)

lemma invariant_spawnFood:
  assumes "spawnFood rnd g = Some g'" "0 \<le> score g" "10 dvd score g" "snake g \<noteq> []"
    "0 < gridWidth g" "0 < gridHeight g"
  shows "invariant g'"
  using spawnFood_fields(1,2,4,5,12) [OF assms(1)] assms(2-) by (simp add: invariant_def)

lemma map_of_directions_queue:
  "map_of directions_queue k = Some d \<Longrightarrow> is_direction d"
  by (auto simp: directions_queue_def is_direction_def split: if_splits)

lemma newDirection_queue_is_direction:
  "newDirection_queue e = Some d \<Longrightarrow> is_direction d"
  by (auto simp: newDirection_queue_def split: option.splits dest: map_of_directions_queue)

lemma map_of_directions_pause:
  "map_of directions_pause k = Some d \<Longrightarrow> is_direction d"
  by (auto simp: directions_pause_def is_direction_def split: if_splits)

lemma is_direction_not_self_opposite: "is_direction d \<Longrightarrow> \<not> opposite d d"
  by (auto simp: is_direction_def opposite_def)

lemma handleKeyEvent_unfold:
  "handleKeyEvent g e =
     (if isSpace e
      then (if type e = ''keydown'' \<and> \<not> gameRunning g then startGame_queue g else g, NoMessage)
      else if \<not> gameRunning g then (g, NoMessage)
      else
        (case newDirection_queue e of
           None \<Rightarrow> (g, NoMessage)
         | Some d \<Rightarrow>
             if d \<notin> set (directionQueue g) \<and> \<not> opposite (lastDirection g) d
             then if length (directionQueue g) < 4
                  then (g\<lparr>directionQueue := directionQueue g @ [d]\<rparr>,
                        DirectionQueued (length (directionQueue g) + 1))
                  else (g, QueueFull)
             else (g, DirectionRejected (d \<in> set (directionQueue g))
                        (opposite (lastDirection g) d))))"
proof -
  have "list_ex (\<lambda>q. x q = x d \<and> y q = y d) qs \<longleftrightarrow> d \<in> set qs" for d :: Position and qs
  proof -
    have "\<And>q. (x q = x d \<and> y q = y d) \<longleftrightarrow> q = d" by (auto simp: Position_eq_iff)
    then show ?thesis by (simp add: list_ex_iff)
  qed
  then show ?thesis
    unfolding handleKeyEvent_def isSpace_def lastDirection_def opposite_def Let_def
    by (simp cong: if_cong option.case_cong)
qed

lemma invariant_handleKeyEvent:
  assumes "invariant_queue g"
  shows "invariant_queue (fst (handleKeyEvent g e))"
proof -
  have start: "invariant_queue (startGame_queue g)"
    using assms by (simp add: invariant_queue_def invariant_def startGame_queue_def updateGameStatus_def)
  have push: "invariant_queue (g\<lparr>directionQueue := directionQueue g @ [d]\<rparr>)"
    if "newDirection_queue e = Some d" "d \<notin> set (directionQueue g)" for d
    using assms newDirection_queue_is_direction [OF that(1)] that(2)
    by (simp add: invariant_queue_def invariant_def)
  show ?thesis
  proof (cases "newDirection_queue e")
    case None
    with assms start show ?thesis by (simp add: handleKeyEvent_unfold)
  next
    case (Some d)
    with assms start push [OF Some] show ?thesis by (simp add: handleKeyEvent_unfold)
  qed
qed

lemma invariant_takeQueuedDirection:
  assumes "invariant_queue g"
  shows "invariant_queue (takeQueuedDirection g)"
  using assms
  by (auto simp: takeQueuedDirection_def invariant_queue_def invariant_def Let_def
      split: list.splits)

lemma update_tail_queue_fields:
  fixes g :: SnakeGame_queue
  assumes "update_tail rnd g = Returns g'"
  shows "direction g' = direction g \<and> directionQueue g' = directionQueue g"
  using assms
proof (cases rule: update_tail_Returns)
  case over
  then show ?thesis by (simp add: gameOver_def Let_def updateGameStatus_def saveHighScore_def)
next
  case (eats nh k f)
  then show ?thesis by simp
next
  case (moves nh)
  then show ?thesis by simp
qed

lemma update_tail_pause_fields:
  fixes g :: SnakeGame_pause
  assumes "update_tail rnd g = Returns g'"
  shows "direction g' = direction g \<and> nextDirection g' = nextDirection g
         \<and> gamePaused g' = gamePaused g"
  using assms
proof (cases rule: update_tail_Returns)
  case over
  then show ?thesis by (simp add: gameOver_def Let_def updateGameStatus_def saveHighScore_def)
next
  case (eats nh k f)
  then show ?thesis by simp
next
  case (moves nh)
  then show ?thesis by simp
qed

lemma invariant_update_queue:
  assumes "invariant_queue g" "update_queue rnd g = Returns g'"
  shows "invariant_queue g'"
proof -
  let ?g1 = "takeQueuedDirection g"
  have i1: "invariant_queue ?g1" using assms(1) by (rule invariant_takeQueuedDirection)
  have u: "update_tail rnd ?g1 = Returns g'" using assms(2) by (simp add: update_queue_def)
  from i1 have "invariant ?g1" by (simp add: invariant_queue_def)
  from invariant_update_tail [OF this u] update_tail_queue_fields [OF u] i1
  show ?thesis by (simp add: invariant_queue_def)
qed

lemma map_outcome_Returns:
  "map_outcome f out = Returns g' \<longleftrightarrow> (\<exists>g. out = Returns g \<and> g' = f g)"
  by (cases out) auto

lemma invariant_queue_draw [simp]: "invariant_queue (draw g) = invariant_queue g"
  by (simp add: invariant_queue_def) (simp add: draw_def)

lemma draw_queue_fields [simp]:
  "direction (draw g) = direction g" "nextDirection (draw g) = nextDirection g"
  "directionQueue (draw q) = directionQueue q" "score (draw g) = score g"
  "snake (draw g) = snake g" "food (draw g) = food g" "highScore (draw g) = highScore g"
  "localStorage (draw g) = localStorage g"
  by (simp_all add: draw_def)

lemma invariant_reset_queue:
  assumes "invariant_queue g" "reset_queue rnd g = Returns g'"
  shows "invariant_queue g'"
proof -
  let ?g0 = "g\<lparr>snake := createInitialSnake, direction := \<lparr>x = 1, y = 0\<rparr>,
                nextDirection := \<lparr>x = 1, y = 0\<rparr>, directionQueue := [], score := 0\<rparr>"
  from assms(2) obtain g1 where sp: "spawnFood rnd ?g0 = Some g1" and g': "g' = draw g1"
    by (auto simp: reset_queue_def split: option.splits)
  have "invariant g1"
    using assms(1)
    by (intro invariant_spawnFood [OF sp])
      (simp_all add: invariant_queue_def invariant_def createInitialSnake_def)
  moreover from spawnFood_Some [OF sp] have "direction g1 = \<lparr>x = 1, y = 0\<rparr>" "directionQueue g1 = []"
    by auto
  ultimately show ?thesis
    by (simp add: g' invariant_queue_def is_direction_def)
qed

lemma invariant_step_queue:
  assumes "invariant_queue g" "step_queue rnd ev g = Returns g'"
  shows "invariant_queue g'"
proof (cases ev)
  case (KeyEvent e)
  with assms show ?thesis by (auto simp: step_queue_def intro: invariant_handleKeyEvent)
next
  case IntervalFires
  with assms show ?thesis
    by (auto simp: step_queue_def interval_queue_def map_outcome_Returns
        split: if_splits dest: invariant_update_queue)
next
  case TimeoutFires
  have "invariant_queue (g\<lparr>pendingResets := n\<rparr>)" for n
    using assms(1) by (simp add: invariant_queue_def invariant_def)
  with TimeoutFires assms show ?thesis
    by (auto simp: step_queue_def split: if_splits dest: invariant_reset_queue)
next
  case (Resize w h)
  with assms(2) obtain g1 where r: "resizeCanvas w h g = Returns g1" and g': "g' = draw g1"
    by (auto simp: step_queue_def map_outcome_Returns)
  from r obtain a b where "g1 = g\<lparr>gridWidth := a, gridHeight := b\<rparr>" "25 \<le> a" "14 \<le> b"
    by (rule resizeCanvas_Returns)
  with assms(1) g' show ?thesis by (simp add: invariant_queue_def invariant_def draw_def)
qed

lemma invariant_run_queue:
  assumes "invariant_queue g" "run_queue rnd evs g = Returns g'"
  shows "invariant_queue g'"
  using assms
proof (induction evs arbitrary: g)
  case Nil
  then show ?case by simp
next
  case (Cons ev evs)
  from Cons.prems(2) obtain g1 where
    s: "step_queue rnd ev g = Returns g1" and r: "run_queue rnd evs g1 = Returns g'"
    by (auto split: outcome.splits)
  from Cons.IH [OF invariant_step_queue [OF Cons.prems(1) s] r] show ?case .
qed

lemma invariant_constructor_queue:
  assumes "constructor_queue rnd w h saved status = Returns g"
  shows "invariant_queue g"
proof -
  let ?e = "\<lparr>snake = [], food = \<lparr>x = 0, y = 0\<rparr>, direction = \<lparr>x = 1, y = 0\<rparr>,
              nextDirection = \<lparr>x = 1, y = 0\<rparr>, score = 0, highScore = 0, gameRunning = False,
              gridWidth = 0, gridHeight = 0, intervalArmed = False, pendingResets = 0,
              localStorage = saved, gameStatus = status, draws = 0, cursor = 0,
              directionQueue = []\<rparr>"
  from assms obtain g1 g2 where r: "resizeCanvas w h ?e = Returns g1"
    and sp: "spawnFood rnd
                  (g1\<lparr>snake := createInitialSnake, food := \<lparr>x = 0, y = 0\<rparr>,
                     direction := \<lparr>x = 1, y = 0\<rparr>, nextDirection := \<lparr>x = 1, y = 0\<rparr>,
                     directionQueue := [], score := 0, highScore := loadHighScore g1,
                     gameRunning := False\<rparr>) = Some g2"
    and g: "g = draw g2"
    by (auto simp: constructor_queue_def split: outcome.splits option.splits)
  from r obtain a b where ab: "g1 = ?e\<lparr>gridWidth := a, gridHeight := b\<rparr>" "25 \<le> a" "14 \<le> b"
    by (rule resizeCanvas_Returns)
  have "invariant g2"
    using ab by (intro invariant_spawnFood [OF sp]) (simp_all add: createInitialSnake_def)
  moreover from spawnFood_Some [OF sp] have "direction g2 = \<lparr>x = 1, y = 0\<rparr>" "directionQueue g2 = []"
    by auto
  ultimately show ?thesis by (simp add: g invariant_queue_def is_direction_def)
qed

lemma invariant_keydown_pause:
  assumes "invariant_pause g"
  shows "invariant_pause (keydown_pause g e)"
proof -
  have toggle: "invariant_pause (toggleGame g)"
    using assms
    by (simp add: invariant_pause_def invariant_def toggleGame_def startGame_pause_def
        updateGameStatus_def Let_def)
  have store: "invariant_pause (g\<lparr>nextDirection := d\<rparr>)"
    if "map_of directions_pause (code e) = Some d" "\<not> opposite (direction g) d" for d
    using assms map_of_directions_pause [OF that(1)] that(2)
    by (simp add: invariant_pause_def invariant_def)
  show ?thesis
  proof (cases "map_of directions_pause (code e)")
    case None
    with assms toggle show ?thesis by (simp add: keydown_pause_def)
  next
    case (Some d)
    with assms toggle store [OF Some] show ?thesis
      by (simp add: keydown_pause_def opposite_def)
  qed
qed

lemma invariant_update_pause:
  assumes "invariant_pause g" "update_pause rnd g = Returns g'"
  shows "invariant_pause g'"
proof -
  let ?g1 = "g\<lparr>direction := nextDirection g\<rparr>"
  have u: "update_tail rnd ?g1 = Returns g'" using assms(2) by (simp add: update_pause_def)
  from assms(1) have "invariant ?g1" by (simp add: invariant_pause_def invariant_def)
  from invariant_update_tail [OF this u] update_tail_pause_fields [OF u] assms(1)
  show ?thesis
    by (simp add: invariant_pause_def is_direction_not_self_opposite)
qed

lemma invariant_pause_draw [simp]: "invariant_pause (draw g) = invariant_pause g"
  by (simp add: invariant_pause_def)

lemma invariant_reset_pause:
  assumes "invariant_pause g" "reset_pause rnd g = Returns g'"
  shows "invariant_pause g'"
proof -
  let ?g0 = "g\<lparr>snake := createInitialSnake, direction := \<lparr>x = 1, y = 0\<rparr>,
                nextDirection := \<lparr>x = 1, y = 0\<rparr>, score := 0\<rparr>"
  from assms(2) obtain g1 where sp: "spawnFood rnd ?g0 = Some g1" and g': "g' = draw g1"
    by (auto simp: reset_pause_def split: option.splits)
  have "invariant g1"
    using assms(1)
    by (intro invariant_spawnFood [OF sp])
      (simp_all add: invariant_pause_def invariant_def createInitialSnake_def)
  moreover from spawnFood_Some [OF sp]
  have "direction g1 = \<lparr>x = 1, y = 0\<rparr>" "nextDirection g1 = \<lparr>x = 1, y = 0\<rparr>"
    by auto
  ultimately show ?thesis
    by (simp add: g' invariant_pause_def is_direction_def opposite_def)
qed

lemma invariant_step_pause:
  assumes "invariant_pause g" "step_pause rnd ev g = Returns g'"
  shows "invariant_pause g'"
proof (cases ev)
  case (KeyEvent e)
  with assms show ?thesis by (auto simp: step_pause_def intro: invariant_keydown_pause)
next
  case IntervalFires
  with assms show ?thesis
    by (auto simp: step_pause_def interval_pause_def map_outcome_Returns
        split: if_splits dest: invariant_update_pause)
next
  case TimeoutFires
  have "invariant_pause (g\<lparr>pendingResets := n\<rparr>)" for n
    using assms(1) by (simp add: invariant_pause_def invariant_def)
  with TimeoutFires assms show ?thesis
    by (auto simp: step_pause_def split: if_splits dest: invariant_reset_pause)
next
  case (Resize w h)
  with assms(2) obtain g1 where r: "resizeCanvas w h g = Returns g1" and g': "g' = draw g1"
    by (auto simp: step_pause_def map_outcome_Returns)
  from r obtain a b where "g1 = g\<lparr>gridWidth := a, gridHeight := b\<rparr>" "25 \<le> a" "14 \<le> b"
    by (rule resizeCanvas_Returns)
  with assms(1) g' show ?thesis by (simp add: invariant_pause_def invariant_def draw_def)
qed

lemma invariant_run_pause:
  assumes "invariant_pause g" "run_pause rnd evs g = Returns g'"
  shows "invariant_pause g'"
  using assms
proof (induction evs arbitrary: g)
  case Nil
  then show ?case by simp
next
  case (Cons ev evs)
  from Cons.prems(2) obtain g1 where
    s: "step_pause rnd ev g = Returns g1" and r: "run_pause rnd evs g1 = Returns g'"
    by (auto split: outcome.splits)
  from Cons.IH [OF invariant_step_pause [OF Cons.prems(1) s] r] show ?case .
qed

lemma invariant_constructor_pause:
  assumes "constructor_pause rnd w h saved status = Returns g"
  shows "invariant_pause g"
proof -
  let ?e = "\<lparr>snake = [], food = \<lparr>x = 0, y = 0\<rparr>, direction = \<lparr>x = 1, y = 0\<rparr>,
              nextDirection = \<lparr>x = 1, y = 0\<rparr>, score = 0, highScore = 0, gameRunning = False,
              gridWidth = 0, gridHeight = 0, intervalArmed = False, pendingResets = 0,
              localStorage = saved, gameStatus = status, draws = 0, cursor = 0,
              gamePaused = False\<rparr>"
  from assms obtain g1 g2 where r: "resizeCanvas w h ?e = Returns g1"
    and sp: "spawnFood rnd
                  (g1\<lparr>snake := createInitialSnake, food := \<lparr>x = 0, y = 0\<rparr>,
                     direction := \<lparr>x = 1, y = 0\<rparr>, nextDirection := \<lparr>x = 1, y = 0\<rparr>,
                     score := 0, highScore := loadHighScore g1, gameRunning := False,
                     gamePaused := False\<rparr>) = Some g2"
    and g: "g = draw g2"
    by (auto simp: constructor_pause_def split: outcome.splits option.splits)
  from r obtain a b where ab: "g1 = ?e\<lparr>gridWidth := a, gridHeight := b\<rparr>" "25 \<le> a" "14 \<le> b"
    by (rule resizeCanvas_Returns)
  have "invariant g2"
    using ab by (intro invariant_spawnFood [OF sp]) (simp_all add: createInitialSnake_def)
  moreover from spawnFood_Some [OF sp]
  have "direction g2 = \<lparr>x = 1, y = 0\<rparr>" "nextDirection g2 = \<lparr>x = 1, y = 0\<rparr>"
    by auto
  ultimately show ?thesis by (simp add: g invariant_pause_def is_direction_def opposite_def)
qed

section \<open>Score\<close>

lemma score_tick:
  fixes s :: "'a SnakeGame_scheme"
  assumes "invariant s" "snake s = head # rest"
  shows "\<exists>nh. newHead s head = Some nh
           \<and> (\<forall>s'. update_tail rnd s = Returns s'
                 \<longrightarrow> score s' = (if nh = food s then score s + 10 else score s))"
proof -
  from assms(1) obtain nh where n: "newHead s head = Some nh"
    using newHead_Some [of s head] by (auto simp: invariant_def)
  from update_tail_score [OF assms n] n show ?thesis by blast
qed

text \<open>
  C5. In every state that either variant reaches from its constructor, through any
  sequence of key events, timer callbacks and resizes, the score is a non-negative
  multiple of 10, and a tick from that state computes a new head, throws nothing, and,
  when it returns, has added exactly 10 to the score if the new head was the food cell
  and has left the score as it was otherwise.
\<close>

theorem C5_score:
  assumes "constructor_queue rnd w h saved status = Returns g0"
    and "run_queue rnd evs g0 = Returns g"
    and "constructor_pause rnd' w' h' saved' status' = Returns p0"
    and "run_pause rnd' evs' p0 = Returns p"
  shows "0 \<le> score g \<and> 10 dvd score g
       \<and> (\<exists>nh. newHead_queue g = Some nh
             \<and> (\<forall>g'. update_queue rnd g = Returns g'
                   \<longrightarrow> score g' = (if nh = food g then score g + 10 else score g)))
       \<and> update_queue rnd g \<noteq> TypeError \<and> update_queue rnd g \<noteq> NotANumber
       \<and> 0 \<le> score p \<and> 10 dvd score p
       \<and> (\<exists>nh. newHead_pause p = Some nh
             \<and> (\<forall>p'. update_pause rnd' p = Returns p'
                   \<longrightarrow> score p' = (if nh = food p then score p + 10 else score p)))
       \<and> update_pause rnd' p \<noteq> TypeError \<and> update_pause rnd' p \<noteq> NotANumber"
proof -
  have iq: "invariant_queue g"
    using invariant_constructor_queue [OF assms(1)] assms(2) by (rule invariant_run_queue)
  have ip: "invariant_pause p"
    using invariant_constructor_pause [OF assms(3)] assms(4) by (rule invariant_run_pause)
  let ?g1 = "takeQueuedDirection g" and ?p1 = "p\<lparr>direction := nextDirection p\<rparr>"
  have i1: "invariant ?g1"
    using invariant_takeQueuedDirection [OF iq] by (simp add: invariant_queue_def)
  have i2: "invariant ?p1" using ip by (simp add: invariant_pause_def invariant_def)
  from iq obtain head rest where sq: "snake g = head # rest"
    by (cases "snake g") (auto simp: invariant_queue_def invariant_def)
  from ip obtain head' rest' where sp: "snake p = head' # rest'"
    by (cases "snake p") (auto simp: invariant_pause_def invariant_def)
  have "snake ?g1 = head # rest" using sq by simp
  from score_tick [OF i1 this, of rnd]
  have q: "\<exists>nh. newHead_queue g = Some nh
             \<and> (\<forall>g'. update_queue rnd g = Returns g'
                   \<longrightarrow> score g' = (if nh = food g then score g + 10 else score g))"
    by (simp add: newHead_queue_def update_queue_def sq cong: if_cong)
  have "snake ?p1 = head' # rest'" using sp by simp
  from score_tick [OF i2 this, of rnd']
  have p: "\<exists>nh. newHead_pause p = Some nh
             \<and> (\<forall>p'. update_pause rnd' p = Returns p'
                   \<longrightarrow> score p' = (if nh = food p then score p + 10 else score p))"
    by (simp add: newHead_pause_def update_pause_def sp cong: if_cong)
  from iq ip q p update_tail_no_error [OF i1, of rnd] update_tail_no_error [OF i2, of rnd']
  show ?thesis
    by (simp add: invariant_queue_def invariant_pause_def invariant_def update_queue_def
        update_pause_def)
qed

lemma constructor_queue_example:
  "constructor_queue rnd1 1920 1080 None []
     = Returns (example_queue\<lparr>gameRunning := False, intervalArmed := False\<rparr>)"
  by (simp add: constructor_queue_def resizeCanvas_def spawnFood.simps rnd1_def
      createInitialSnake_def loadHighScore_def draw_def example_queue_def)

lemma constructor_pause_example:
  "constructor_pause rnd1 1920 1080 None []
     = Returns (example_pause\<lparr>gameRunning := False, intervalArmed := False\<rparr>)"
  by (simp add: constructor_pause_def resizeCanvas_def spawnFood.simps rnd1_def
      createInitialSnake_def loadHighScore_def draw_def example_pause_def)

lemma start_queue_example:
  "run_queue rnd1 [KeyEvent (keydown ''Space'' 32)]
     (example_queue\<lparr>gameRunning := False, intervalArmed := False\<rparr>) = Returns example_queue"
  by (simp add: step_queue_def handleKeyEvent_def keydown_def startGame_queue_def
      updateGameStatus_def example_queue_def)

lemma start_pause_example:
  "run_pause rnd1 [KeyEvent (keydown ''Space'' 32)]
     (example_pause\<lparr>gameRunning := False, intervalArmed := False\<rparr>) = Returns example_pause"
  by (simp add: step_pause_def keydown_pause_def keydown_def toggleGame_def startGame_pause_def
      updateGameStatus_def example_pause_def)

theorem C5_score_witness:
  "constructor_queue rnd1 1920 1080 None []
     = Returns (example_queue\<lparr>gameRunning := False, intervalArmed := False\<rparr>)
   \<and> run_queue rnd1 [KeyEvent (keydown ''Space'' 32)]
        (example_queue\<lparr>gameRunning := False, intervalArmed := False\<rparr>) = Returns example_queue
   \<and> constructor_pause rnd1 1920 1080 None []
       = Returns (example_pause\<lparr>gameRunning := False, intervalArmed := False\<rparr>)
   \<and> run_pause rnd1 [KeyEvent (keydown ''Space'' 32)]
        (example_pause\<lparr>gameRunning := False, intervalArmed := False\<rparr>) = Returns example_pause
   \<and> newHead_queue example_queue = Some (food example_queue)
   \<and> (\<exists>g'. update_queue rnd1 example_queue = Returns g' \<and> score g' = 10)
   \<and> (\<exists>p'. update_pause rnd1 example_pause = Returns p' \<and> score p' = 10)"
proof -
  note C = C5_score [OF constructor_queue_example start_queue_example
      constructor_pause_example start_pause_example]
  have q: "newHead_queue example_queue = Some (food example_queue)"
    by (simp add: newHead_queue_def example_queue_def takeQueuedDirection_def
        createInitialSnake_def newHead_def js_rem_def)
  have p: "newHead_pause example_pause = Some (food example_pause)"
    by (simp add: newHead_pause_def example_pause_def createInitialSnake_def newHead_def js_rem_def)
  have s: "score example_queue + 10 = 10" "score example_pause + 10 = 10"
    by (simp_all add: example_queue_def example_pause_def)
  have u: "\<exists>g'. update_queue rnd1 example_queue = Returns g'"
    by (simp add: update_queue_def update_tail_def takeQueuedDirection_def example_queue_def
        createInitialSnake_def newHead_def js_rem_def checkCollision_def spawnFood.simps rnd1_def)
  have v: "\<exists>p'. update_pause rnd1 example_pause = Returns p'"
    by (simp add: update_pause_def update_tail_def example_pause_def
        createInitialSnake_def newHead_def js_rem_def checkCollision_def spawnFood.simps rnd1_def)
  from C q s(1) have "\<forall>g'. update_queue rnd1 example_queue = Returns g' \<longrightarrow> score g' = 10"
    by simp
  with u have A: "\<exists>g'. update_queue rnd1 example_queue = Returns g' \<and> score g' = 10"
    by blast
  from C p s(2) have "\<forall>p'. update_pause rnd1 example_pause = Returns p' \<longrightarrow> score p' = 10"
    by simp
  with v have B: "\<exists>p'. update_pause rnd1 example_pause = Returns p' \<and> score p' = 10"
    by blast
  from constructor_queue_example start_queue_example constructor_pause_example
    start_pause_example q A B
  show ?thesis by blast
qed

section \<open>Game over and reset\<close>

lemma gameOver_highScore:
  "highScore (gameOver g) = (if score g > highScore g then score g else highScore g)"
  "localStorage (gameOver g) = (if score g > highScore g then Some (score g) else localStorage g)"
  "gameStatus (gameOver g) =
     (if score g > highScore g then ''NEW HIGH SCORE! Press SPACE to Play Again''
      else ''GAME OVER! Press SPACE to Play Again'')"
  by (simp_all add: gameOver_def Let_def updateGameStatus_def saveHighScore_def)

lemma reset_queue_result:
  assumes "foodAt rnd g (cursor g + 2 * k) \<notin> set createInitialSnake"
  shows "\<exists>c f. reset_queue rnd g
                 = Returns (g\<lparr>snake := createInitialSnake, direction := \<lparr>x = 1, y = 0\<rparr>,
                              nextDirection := \<lparr>x = 1, y = 0\<rparr>, directionQueue := [],
                              score := 0, cursor := c, food := f, draws := Suc (draws g)\<rparr>)
               \<and> f \<notin> set createInitialSnake"
proof -
  let ?g0 = "g\<lparr>snake := createInitialSnake, direction := \<lparr>x = 1, y = 0\<rparr>,
                nextDirection := \<lparr>x = 1, y = 0\<rparr>, directionQueue := [], score := 0\<rparr>"
  have "\<not> checkCollision ?g0 (foodAt rnd ?g0 (cursor ?g0 + 2 * k))"
    using assms by (simp add: checkCollision_iff foodAt_def)
  from spawnFood_returns [OF this] obtain g1 where sp: "spawnFood rnd ?g0 = Some g1" ..
  from spawnFood_Some [OF sp] obtain j where
    g1: "g1 = ?g0\<lparr>cursor := cursor ?g0 + 2 * Suc j, food := foodAt rnd ?g0 (cursor ?g0 + 2 * j)\<rparr>"
    and free: "\<not> checkCollision ?g0 (foodAt rnd ?g0 (cursor ?g0 + 2 * j))"
    by blast
  have "reset_queue rnd g = Returns (draw g1)" by (simp add: reset_queue_def sp)
  also have "draw g1 = g\<lparr>snake := createInitialSnake, direction := \<lparr>x = 1, y = 0\<rparr>,
                              nextDirection := \<lparr>x = 1, y = 0\<rparr>, directionQueue := [],
                              score := 0, cursor := cursor g + 2 * Suc j,
                              food := foodAt rnd ?g0 (cursor ?g0 + 2 * j),
                              draws := Suc (draws g)\<rparr>"
    by (simp add: g1 draw_def)
  finally show ?thesis using free by (auto simp: checkCollision_iff)
qed

lemma reset_pause_result:
  assumes "foodAt rnd g (cursor g + 2 * k) \<notin> set createInitialSnake"
  shows "\<exists>c f. reset_pause rnd g
                 = Returns (g\<lparr>snake := createInitialSnake, direction := \<lparr>x = 1, y = 0\<rparr>,
                              nextDirection := \<lparr>x = 1, y = 0\<rparr>,
                              score := 0, cursor := c, food := f, draws := Suc (draws g)\<rparr>)
               \<and> f \<notin> set createInitialSnake"
proof -
  let ?g0 = "g\<lparr>snake := createInitialSnake, direction := \<lparr>x = 1, y = 0\<rparr>,
                nextDirection := \<lparr>x = 1, y = 0\<rparr>, score := 0\<rparr>"
  have "\<not> checkCollision ?g0 (foodAt rnd ?g0 (cursor ?g0 + 2 * k))"
    using assms by (simp add: checkCollision_iff foodAt_def)
  from spawnFood_returns [OF this] obtain g1 where sp: "spawnFood rnd ?g0 = Some g1" ..
  from spawnFood_Some [OF sp] obtain j where
    g1: "g1 = ?g0\<lparr>cursor := cursor ?g0 + 2 * Suc j, food := foodAt rnd ?g0 (cursor ?g0 + 2 * j)\<rparr>"
    and free: "\<not> checkCollision ?g0 (foodAt rnd ?g0 (cursor ?g0 + 2 * j))"
    by blast
  have "reset_pause rnd g = Returns (draw g1)" by (simp add: reset_pause_def sp)
  also have "draw g1 = g\<lparr>snake := createInitialSnake, direction := \<lparr>x = 1, y = 0\<rparr>,
                              nextDirection := \<lparr>x = 1, y = 0\<rparr>,
                              score := 0, cursor := cursor g + 2 * Suc j,
                              food := foodAt rnd ?g0 (cursor ?g0 + 2 * j),
                              draws := Suc (draws g)\<rparr>"
    by (simp add: g1 draw_def)
  finally show ?thesis using free by (auto simp: checkCollision_iff)
qed

text \<open>
  C8. In both variants \<^verbatim>\<open>gameOver\<close> stops the game, and when the score exceeds
  \<^verbatim>\<open>highScore\<close> it stores the score there and in the persistent store; it schedules
  one reset. The respawn of the reset has no bound, so the reset is taken where one pair
  of the coming draws gives a cell off the initial snake: there a scheduled reset that
  fires returns, and the state it returns is the state before it with the snake set to
  the five cells from (7,8) to (3,8), direction and pending direction to (1,0), the
  queue of the queue variant to the empty queue, the score to 0, the food to a cell off
  the snake, and one more draw counted. Everything else, \<^verbatim>\<open>highScore\<close> and the store
  among it, is what it was.
\<close>

theorem C8_game_over_and_reset:
  assumes "0 < pendingResets s"
    and "foodAt rnd s (cursor s + 2 * k) \<notin> set createInitialSnake"
    and "0 < pendingResets t"
    and "foodAt rnd' t (cursor t + 2 * k') \<notin> set createInitialSnake"
  shows "\<not> gameRunning (gameOver g) \<and> \<not> gameRunning (gameOver p)
       \<and> highScore (gameOver g) = (if score g > highScore g then score g else highScore g)
       \<and> localStorage (gameOver g)
           = (if score g > highScore g then Some (score g) else localStorage g)
       \<and> highScore (gameOver p) = (if score p > highScore p then score p else highScore p)
       \<and> localStorage (gameOver p)
           = (if score p > highScore p then Some (score p) else localStorage p)
       \<and> pendingResets (gameOver g) = Suc (pendingResets g)
       \<and> pendingResets (gameOver p) = Suc (pendingResets p)
       \<and> (\<exists>c f. step_queue rnd TimeoutFires s
                   = Returns (s\<lparr>pendingResets := pendingResets s - 1,
                                snake := [\<lparr>x = 7, y = 8\<rparr>, \<lparr>x = 6, y = 8\<rparr>, \<lparr>x = 5, y = 8\<rparr>,
                                          \<lparr>x = 4, y = 8\<rparr>, \<lparr>x = 3, y = 8\<rparr>],
                                direction := \<lparr>x = 1, y = 0\<rparr>, nextDirection := \<lparr>x = 1, y = 0\<rparr>,
                                directionQueue := [], score := 0,
                                cursor := c, food := f, draws := Suc (draws s)\<rparr>)
              \<and> f \<notin> set [\<lparr>x = 7, y = 8\<rparr>, \<lparr>x = 6, y = 8\<rparr>, \<lparr>x = 5, y = 8\<rparr>,
                            \<lparr>x = 4, y = 8\<rparr>, \<lparr>x = 3, y = 8\<rparr>])
       \<and> (\<exists>c f. step_pause rnd' TimeoutFires t
                   = Returns (t\<lparr>pendingResets := pendingResets t - 1,
                                snake := [\<lparr>x = 7, y = 8\<rparr>, \<lparr>x = 6, y = 8\<rparr>, \<lparr>x = 5, y = 8\<rparr>,
                                          \<lparr>x = 4, y = 8\<rparr>, \<lparr>x = 3, y = 8\<rparr>],
                                direction := \<lparr>x = 1, y = 0\<rparr>, nextDirection := \<lparr>x = 1, y = 0\<rparr>,
                                score := 0,
                                cursor := c, food := f, draws := Suc (draws t)\<rparr>)
              \<and> f \<notin> set [\<lparr>x = 7, y = 8\<rparr>, \<lparr>x = 6, y = 8\<rparr>, \<lparr>x = 5, y = 8\<rparr>,
                            \<lparr>x = 4, y = 8\<rparr>, \<lparr>x = 3, y = 8\<rparr>])"
proof -
  have c: "createInitialSnake
             = [\<lparr>x = 7, y = 8\<rparr>, \<lparr>x = 6, y = 8\<rparr>, \<lparr>x = 5, y = 8\<rparr>, \<lparr>x = 4, y = 8\<rparr>, \<lparr>x = 3, y = 8\<rparr>]"
    by (simp add: createInitialSnake_def)
  let ?s = "s\<lparr>pendingResets := pendingResets s - 1\<rparr>"
  let ?t = "t\<lparr>pendingResets := pendingResets t - 1\<rparr>"
  have "foodAt rnd ?s (cursor ?s + 2 * k) \<notin> set createInitialSnake"
    using assms(2) by (simp add: foodAt_def)
  from reset_queue_result [OF this] assms(1)
  have q: "\<exists>c f. step_queue rnd TimeoutFires s
                   = Returns (s\<lparr>pendingResets := pendingResets s - 1,
                                snake := createInitialSnake,
                                direction := \<lparr>x = 1, y = 0\<rparr>, nextDirection := \<lparr>x = 1, y = 0\<rparr>,
                                directionQueue := [], score := 0,
                                cursor := c, food := f, draws := Suc (draws s)\<rparr>)
              \<and> f \<notin> set createInitialSnake"
    by (simp add: step_queue_def)
  have "foodAt rnd' ?t (cursor ?t + 2 * k') \<notin> set createInitialSnake"
    using assms(4) by (simp add: foodAt_def)
  from reset_pause_result [OF this] assms(3)
  have p: "\<exists>c f. step_pause rnd' TimeoutFires t
                   = Returns (t\<lparr>pendingResets := pendingResets t - 1,
                                snake := createInitialSnake,
                                direction := \<lparr>x = 1, y = 0\<rparr>, nextDirection := \<lparr>x = 1, y = 0\<rparr>,
                                score := 0,
                                cursor := c, food := f, draws := Suc (draws t)\<rparr>)
              \<and> f \<notin> set createInitialSnake"
    by (simp add: step_pause_def)
  have go: "\<not> gameRunning (gameOver g) \<and> \<not> gameRunning (gameOver p)
       \<and> highScore (gameOver g) = (if score g > highScore g then score g else highScore g)
       \<and> localStorage (gameOver g)
           = (if score g > highScore g then Some (score g) else localStorage g)
       \<and> highScore (gameOver p) = (if score p > highScore p then score p else highScore p)
       \<and> localStorage (gameOver p)
           = (if score p > highScore p then Some (score p) else localStorage p)
       \<and> pendingResets (gameOver g) = Suc (pendingResets g)
       \<and> pendingResets (gameOver p) = Suc (pendingResets p)"
    by (simp add: gameOver_highScore)
  note all = conjI [OF go conjI [OF q [unfolded c] p [unfolded c]]]
  from all [unfolded conj_assoc] show ?thesis .
qed

theorem C8_game_over_and_reset_witness:
  "update_queue rnd1 crash_queue = Returns (gameOver (takeQueuedDirection crash_queue))
   \<and> gameOver (takeQueuedDirection crash_queue)
       = crash_queue\<lparr>directionQueue := [\<lparr>x = - 1, y = 0\<rparr>],
                      highScore := 30, localStorage := Some 30,
                      gameRunning := False, intervalArmed := False, pendingResets := 1,
                      gameStatus := ''NEW HIGH SCORE! Press SPACE to Play Again''\<rparr>
   \<and> foodAt rnd1 (gameOver (takeQueuedDirection crash_queue))
         (cursor (gameOver (takeQueuedDirection crash_queue)) + 2 * 0) = \<lparr>x = 12, y = 7\<rparr>
   \<and> step_queue rnd1 TimeoutFires (gameOver (takeQueuedDirection crash_queue))
       = Returns (example_queue\<lparr>highScore := 30, localStorage := Some 30,
                                 gameRunning := False, intervalArmed := False,
                                 gameStatus := ''NEW HIGH SCORE! Press SPACE to Play Again'',
                                 food := \<lparr>x = 12, y = 7\<rparr>, cursor := 12, draws := 41\<rparr>)
   \<and> update_pause rnd1 crash_pause
       = Returns (gameOver (crash_pause\<lparr>direction := nextDirection crash_pause\<rparr>))
   \<and> gameOver (crash_pause\<lparr>direction := nextDirection crash_pause\<rparr>)
       = crash_pause\<lparr>direction := \<lparr>x = 0, y = 1\<rparr>,
                      gameRunning := False, intervalArmed := False, pendingResets := 1,
                      gameStatus := ''GAME OVER! Press SPACE to Play Again''\<rparr>
   \<and> step_pause rnd1 TimeoutFires (gameOver (crash_pause\<lparr>direction := nextDirection crash_pause\<rparr>))
       = Returns (example_pause\<lparr>highScore := 20,
                                 gameRunning := False, intervalArmed := False,
                                 gameStatus := ''GAME OVER! Press SPACE to Play Again'',
                                 food := \<lparr>x = 12, y = 7\<rparr>, cursor := 8, draws := 13\<rparr>)
   \<and> (\<exists>c f. step_queue rnd1 TimeoutFires (gameOver (takeQueuedDirection crash_queue))
                = Returns ((gameOver (takeQueuedDirection crash_queue))
                     \<lparr>pendingResets := pendingResets (gameOver (takeQueuedDirection crash_queue)) - 1,
                      snake := [\<lparr>x = 7, y = 8\<rparr>, \<lparr>x = 6, y = 8\<rparr>, \<lparr>x = 5, y = 8\<rparr>,
                                \<lparr>x = 4, y = 8\<rparr>, \<lparr>x = 3, y = 8\<rparr>],
                      direction := \<lparr>x = 1, y = 0\<rparr>, nextDirection := \<lparr>x = 1, y = 0\<rparr>,
                      directionQueue := [], score := 0, cursor := c, food := f,
                      draws := Suc (draws (gameOver (takeQueuedDirection crash_queue)))\<rparr>)
              \<and> f \<notin> set [\<lparr>x = 7, y = 8\<rparr>, \<lparr>x = 6, y = 8\<rparr>, \<lparr>x = 5, y = 8\<rparr>,
                            \<lparr>x = 4, y = 8\<rparr>, \<lparr>x = 3, y = 8\<rparr>])"
proof -
  let ?s = "gameOver (takeQueuedDirection crash_queue)"
  let ?t = "gameOver (crash_pause\<lparr>direction := nextDirection crash_pause\<rparr>)"
  have s: "?s = crash_queue\<lparr>directionQueue := [\<lparr>x = - 1, y = 0\<rparr>],
                      highScore := 30, localStorage := Some 30,
                      gameRunning := False, intervalArmed := False, pendingResets := 1,
                      gameStatus := ''NEW HIGH SCORE! Press SPACE to Play Again''\<rparr>"
    by (simp add: crash_queue_def example_queue_def takeQueuedDirection_def
        gameOver_def updateGameStatus_def saveHighScore_def)
  have t: "?t = crash_pause\<lparr>direction := \<lparr>x = 0, y = 1\<rparr>,
                      gameRunning := False, intervalArmed := False, pendingResets := 1,
                      gameStatus := ''GAME OVER! Press SPACE to Play Again''\<rparr>"
    by (simp add: crash_pause_def example_pause_def
        gameOver_def updateGameStatus_def saveHighScore_def)
  have uq: "update_queue rnd1 crash_queue = Returns ?s"
    by (simp add: update_queue_def update_tail_def crash_queue_def
        example_queue_def takeQueuedDirection_def newHead_def js_rem_def checkCollision_def)
  have up: "update_pause rnd1 crash_pause = Returns ?t"
    by (simp add: update_pause_def update_tail_def crash_pause_def
        example_pause_def newHead_def js_rem_def checkCollision_def)
  have fq: "foodAt rnd1 ?s (cursor ?s + 2 * 0) = \<lparr>x = 12, y = 7\<rparr>"
    unfolding s by (simp add: foodAt_def rnd1_def crash_queue_def example_queue_def)
  have fp: "foodAt rnd1 ?t (cursor ?t + 2 * 0) = \<lparr>x = 12, y = 7\<rparr>"
    unfolding t by (simp add: foodAt_def rnd1_def crash_pause_def example_pause_def)
  have 1: "0 < pendingResets ?s" and 3: "0 < pendingResets ?t" by simp_all
  have 2: "foodAt rnd1 ?s (cursor ?s + 2 * 0) \<notin> set createInitialSnake"
    unfolding fq by (simp add: createInitialSnake_def)
  have 4: "foodAt rnd1 ?t (cursor ?t + 2 * 0) \<notin> set createInitialSnake"
    unfolding fp by (simp add: createInitialSnake_def)
  note C = C8_game_over_and_reset [OF 1 2 3 4,
      where g = "takeQueuedDirection crash_queue"
        and p = "crash_pause\<lparr>direction := nextDirection crash_pause\<rparr>"]
  from C have E: "\<exists>c f. step_queue rnd1 TimeoutFires ?s
                = Returns (?s\<lparr>pendingResets := pendingResets ?s - 1,
                      snake := [\<lparr>x = 7, y = 8\<rparr>, \<lparr>x = 6, y = 8\<rparr>, \<lparr>x = 5, y = 8\<rparr>,
                                \<lparr>x = 4, y = 8\<rparr>, \<lparr>x = 3, y = 8\<rparr>],
                      direction := \<lparr>x = 1, y = 0\<rparr>, nextDirection := \<lparr>x = 1, y = 0\<rparr>,
                      directionQueue := [], score := 0, cursor := c, food := f,
                      draws := Suc (draws ?s)\<rparr>)
              \<and> f \<notin> set [\<lparr>x = 7, y = 8\<rparr>, \<lparr>x = 6, y = 8\<rparr>, \<lparr>x = 5, y = 8\<rparr>,
                            \<lparr>x = 4, y = 8\<rparr>, \<lparr>x = 3, y = 8\<rparr>]"
    by (elim conjE)
  have rq: "step_queue rnd1 TimeoutFires ?s
       = Returns (example_queue\<lparr>highScore := 30, localStorage := Some 30,
                                 gameRunning := False, intervalArmed := False,
                                 gameStatus := ''NEW HIGH SCORE! Press SPACE to Play Again'',
                                 food := \<lparr>x = 12, y = 7\<rparr>, cursor := 12, draws := 41\<rparr>)"
    unfolding s
    by (simp add: step_queue_def reset_queue_def draw_def spawnFood.simps rnd1_def
        crash_queue_def example_queue_def createInitialSnake_def)
  have rp: "step_pause rnd1 TimeoutFires ?t
       = Returns (example_pause\<lparr>highScore := 20,
                                 gameRunning := False, intervalArmed := False,
                                 gameStatus := ''GAME OVER! Press SPACE to Play Again'',
                                 food := \<lparr>x = 12, y = 7\<rparr>, cursor := 8, draws := 13\<rparr>)"
    unfolding t
    by (simp add: step_pause_def reset_pause_def draw_def spawnFood.simps rnd1_def
        crash_pause_def example_pause_def createInitialSnake_def)
  from uq s fq rq up t rp E show ?thesis by (intro conjI)
qed

section \<open>The bound of the queue\<close>

lemma toString_digits: "toString n \<noteq> [] \<and> set (toString n) \<subseteq> set ''0123456789''"
proof (induction n rule: toString.induct)
  case (1 n)
  show ?case
  proof (cases "n < 10")
    case True
    then have "''0123456789'' ! n \<in> set ''0123456789''" by (intro nth_mem) simp
    with True show ?thesis by (subst (1 2) toString.simps) simp
  next
    case False
    have "''0123456789'' ! (n mod 10) \<in> set ''0123456789''" by (intro nth_mem) simp
    with False "1.IH" show ?thesis by (subst (1 2) toString.simps) simp
  qed
qed

lemma toString_not_inherited: "toString n \<notin> set object_prototype"
proof
  assume "toString n \<in> set object_prototype"
  moreover have "\<forall>s \<in> set object_prototype. \<not> set s \<subseteq> set ''0123456789''"
    by (simp add: object_prototype_def)
  ultimately show False using toString_digits [of n] by blast
qed

lemma empty_not_inherited: "[] \<notin> set object_prototype"
  by (simp add: object_prototype_def)

text \<open>
  On an event whose \<^verbatim>\<open>code\<close> and \<^verbatim>\<open>key\<close> name no inherited property, the definitions
  of this section are \<open>handleKeyEvent\<close> and \<open>keydown_pause\<close>.
\<close>

lemma newDirection_any_ordinary:
  assumes "code e \<notin> set object_prototype" "key e \<notin> set object_prototype"
  shows "newDirection_any e
           = (case newDirection_queue e of Some d \<Rightarrow> Entry d | None \<Rightarrow> Undefined)"
  using assms toString_not_inherited empty_not_inherited
  by (simp add: newDirection_any_def newDirection_queue_def property_of_def
      split: option.splits)

lemma handleKeyEvent_any_ordinary:
  assumes "code e \<notin> set object_prototype" "key e \<notin> set object_prototype"
  shows "handleKeyEvent_any g e = Returns (handleKeyEvent g e)"
  unfolding handleKeyEvent_any_def handleKeyEvent_def newDirection_any_ordinary [OF assms]
  by (simp add: Let_def split: option.splits)

lemma keydown_pause_any_ordinary:
  assumes "code e \<notin> set object_prototype"
  shows "keydown_pause_any g e = Returns (keydown_pause g e)"
  using assms
  by (simp add: keydown_pause_any_def keydown_pause_def property_of_def split: option.splits)





section \<open>No reversal between two ticks\<close>

lemma handleKeyEvent_direction [simp]:
  "direction (fst (handleKeyEvent g e)) = direction g"
  by (cases "newDirection_queue e")
    (simp_all add: handleKeyEvent_unfold startGame_queue_def updateGameStatus_def)

lemma submit_direction [simp]: "direction (submit g es) = direction g"
  by (induction es arbitrary: g) simp_all

lemma takeQueuedDirection_direction:
  "direction (takeQueuedDirection g) = direction g
   \<or> (direction (takeQueuedDirection g) \<in> set (directionQueue g)
        \<and> \<not> opposite (direction g) (direction (takeQueuedDirection g)))"
  by (auto simp: takeQueuedDirection_def opposite_def Let_def split: list.splits)

lemma takeQueuedDirection_opposite:
  assumes "directionQueue g = q # rest" "opposite (direction g) q"
  shows "takeQueuedDirection g = g\<lparr>directionQueue := rest\<rparr>"
  using assms by (simp add: takeQueuedDirection_def opposite_def Let_def)

lemma keydown_pause_direction [simp]: "direction (keydown_pause g e) = direction g"
  by (cases "map_of directions_pause (code e)")
    (simp_all add: keydown_pause_def toggleGame_def startGame_pause_def updateGameStatus_def Let_def)

lemma keydown_pause_nextDirection:
  "nextDirection (keydown_pause g e) = nextDirection g
   \<or> \<not> opposite (direction g) (nextDirection (keydown_pause g e))"
  by (cases "map_of directions_pause (code e)")
    (simp_all add: keydown_pause_def toggleGame_def startGame_pause_def updateGameStatus_def
      opposite_def Let_def)

lemma submit_pause_direction [simp]: "direction (submit_pause g es) = direction g"
  by (induction es arbitrary: g) simp_all

lemma submit_pause_nextDirection:
  assumes "\<not> opposite (direction g) (nextDirection g)"
  shows "\<not> opposite (direction g) (nextDirection (submit_pause g es))"
  using assms
proof (induction es arbitrary: g)
  case Nil
  then show ?case by simp
next
  case (Cons e es)
  have "\<not> opposite (direction (keydown_pause g e)) (nextDirection (keydown_pause g e))"
    using keydown_pause_nextDirection [of g e] Cons.prems by auto
  from Cons.IH [OF this] show ?case by simp
qed

text \<open>
  C10. Take two consecutive ticks of one game, with any key events between them.
  In the queue variant, whose directions are unit vectors, the direction of the later
  tick is not the opposite of the direction of the earlier one: a buffered direction
  that is the opposite of the current one is taken off the queue and not applied. In the
  single-pending variant likewise: a tick applies the pending direction, and the
  listener only stores a pending direction that is not the opposite of the current one.
\<close>

theorem C10_no_reversal_between_ticks:
  assumes "is_direction (direction g)" and "list_all is_direction (directionQueue g)"
    and "update_queue rnd g = Returns g1"
    and "update_queue rnd (submit g1 es) = Returns g2"
    and "is_direction (nextDirection p)"
    and "update_pause rnd' p = Returns p1"
    and "update_pause rnd' (submit_pause p1 es') = Returns p2"
  shows "\<not> opposite (direction g1) (direction g2)
       \<and> direction g1 = direction (takeQueuedDirection g)
       \<and> direction g2 = direction (takeQueuedDirection (submit g1 es))
       \<and> (\<forall>q rest. directionQueue g = q # rest \<and> opposite (direction g) q
             \<longrightarrow> takeQueuedDirection g = g\<lparr>directionQueue := rest\<rparr>)
       \<and> \<not> opposite (direction p1) (direction p2)
       \<and> direction p1 = nextDirection p
       \<and> direction p2 = nextDirection (submit_pause p1 es')
       \<and> (\<forall>e. nextDirection (keydown_pause p e) = nextDirection p
             \<or> \<not> opposite (direction p) (nextDirection (keydown_pause p e)))"
proof -
  have u1: "update_tail rnd (takeQueuedDirection g) = Returns g1"
    and u2: "update_tail rnd (takeQueuedDirection (submit g1 es)) = Returns g2"
    using assms(3,4) by (simp_all add: update_queue_def)
  have d1: "direction g1 = direction (takeQueuedDirection g)"
    using update_tail_queue_fields [OF u1] by simp
  have d2: "direction g2 = direction (takeQueuedDirection (submit g1 es))"
    using update_tail_queue_fields [OF u2] by simp
  have "is_direction (direction g1)"
    using takeQueuedDirection_direction [of g] assms(1,2) unfolding d1
    by (auto simp: list_all_iff)
  then have self: "\<not> opposite (direction g1) (direction g1)"
    by (rule is_direction_not_self_opposite)
  have q: "\<not> opposite (direction g1) (direction g2)"
    using takeQueuedDirection_direction [of "submit g1 es"] self unfolding d2 by auto
  have v1: "update_tail rnd' (p\<lparr>direction := nextDirection p\<rparr>) = Returns p1"
    and v2: "update_tail rnd' ((submit_pause p1 es')\<lparr>direction := nextDirection (submit_pause p1 es')\<rparr>)
               = Returns p2"
    using assms(6,7) by (simp_all add: update_pause_def)
  have e1: "direction p1 = nextDirection p" "nextDirection p1 = nextDirection p"
    using update_tail_pause_fields [OF v1] by simp_all
  have e2: "direction p2 = nextDirection (submit_pause p1 es')"
    using update_tail_pause_fields [OF v2] by simp
  have "\<not> opposite (direction p1) (nextDirection p1)"
    unfolding e1 using assms(5) by (rule is_direction_not_self_opposite)
  from submit_pause_nextDirection [OF this, of es']
  have p: "\<not> opposite (direction p1) (direction p2)" unfolding e2 .
  from q d1 d2 p e1(1) e2 takeQueuedDirection_opposite [of g] keydown_pause_nextDirection [of p]
  show ?thesis by blast
qed

theorem C10_no_reversal_between_ticks_witness:
  "(\<exists>g1 g2. update_queue rnd1 example_queue = Returns g1
        \<and> update_queue rnd1 (submit g1 [keydown ''ArrowUp'' 38]) = Returns g2
        \<and> direction g1 = \<lparr>x = 1, y = 0\<rparr> \<and> direction g2 = \<lparr>x = 0, y = - 1\<rparr>
        \<and> \<not> opposite (direction g1) (direction g2))
   \<and> (\<exists>p1 p2. update_pause rnd1 example_pause = Returns p1
        \<and> update_pause rnd1 (submit_pause p1 [keydown ''ArrowUp'' 38, keydown ''ArrowLeft'' 37])
            = Returns p2
        \<and> direction p1 = \<lparr>x = 1, y = 0\<rparr> \<and> direction p2 = \<lparr>x = 0, y = - 1\<rparr>
        \<and> \<not> opposite (direction p1) (direction p2))"
proof -
  let ?g1 = "example_queue\<lparr>snake := \<lparr>x = 8, y = 8\<rparr> # createInitialSnake, score := 10,
                            cursor := 6, food := \<lparr>x = 12, y = 7\<rparr>\<rparr>"
  let ?g2 = "?g1\<lparr>snake := \<lparr>x = 8, y = 7\<rparr> # \<lparr>x = 8, y = 8\<rparr> # butlast createInitialSnake,
                  direction := \<lparr>x = 0, y = - 1\<rparr>\<rparr>"
  let ?p1 = "example_pause\<lparr>snake := \<lparr>x = 8, y = 8\<rparr> # createInitialSnake, score := 10,
                            cursor := 6, food := \<lparr>x = 12, y = 7\<rparr>\<rparr>"
  let ?p2 = "?p1\<lparr>snake := \<lparr>x = 8, y = 7\<rparr> # \<lparr>x = 8, y = 8\<rparr> # butlast createInitialSnake,
                  direction := \<lparr>x = 0, y = - 1\<rparr>, nextDirection := \<lparr>x = 0, y = - 1\<rparr>\<rparr>"
  have a1: "is_direction (direction example_queue)"
    and a2: "list_all is_direction (directionQueue example_queue)"
    and a5: "is_direction (nextDirection example_pause)"
    by (simp_all add: example_queue_def example_pause_def is_direction_def)
  have a3: "update_queue rnd1 example_queue = Returns ?g1"
    by (simp add: update_queue_def update_tail_def takeQueuedDirection_def example_queue_def
        createInitialSnake_def newHead_def js_rem_def checkCollision_def spawnFood.simps rnd1_def)
  have s: "submit ?g1 [keydown ''ArrowUp'' 38]
             = ?g1\<lparr>directionQueue := [\<lparr>x = 0, y = - 1\<rparr>]\<rparr>"
    by (simp add: handleKeyEvent_unfold isSpace_def keydown_def newDirection_queue_def
        directions_queue_def lastDirection_def opposite_def example_queue_def)
  have a4: "update_queue rnd1 (submit ?g1 [keydown ''ArrowUp'' 38]) = Returns ?g2"
    unfolding s
    by (simp add: update_queue_def update_tail_def takeQueuedDirection_def example_queue_def
        createInitialSnake_def newHead_def js_rem_def checkCollision_def)
  have a6: "update_pause rnd1 example_pause = Returns ?p1"
    by (simp add: update_pause_def update_tail_def example_pause_def
        createInitialSnake_def newHead_def js_rem_def checkCollision_def spawnFood.simps rnd1_def)
  have t: "submit_pause ?p1 [keydown ''ArrowUp'' 38, keydown ''ArrowLeft'' 37]
             = ?p1\<lparr>nextDirection := \<lparr>x = 0, y = - 1\<rparr>\<rparr>"
    by (simp add: keydown_pause_def keydown_def directions_pause_def example_pause_def)
  have a7: "update_pause rnd1 (submit_pause ?p1 [keydown ''ArrowUp'' 38, keydown ''ArrowLeft'' 37])
              = Returns ?p2"
    unfolding t
    by (simp add: update_pause_def update_tail_def example_pause_def
        createInitialSnake_def newHead_def js_rem_def checkCollision_def)
  note C = C10_no_reversal_between_ticks [OF a1 a2 a3 a4 a5 a6 a7]
  from C have q: "\<not> opposite (direction ?g1) (direction ?g2)" by (elim conjE)
  from C have p: "\<not> opposite (direction ?p1) (direction ?p2)" by (elim conjE)
  have d: "direction ?g1 = \<lparr>x = 1, y = 0\<rparr>" "direction ?g2 = \<lparr>x = 0, y = - 1\<rparr>"
    "direction ?p1 = \<lparr>x = 1, y = 0\<rparr>" "direction ?p2 = \<lparr>x = 0, y = - 1\<rparr>"
    by (simp_all add: example_queue_def example_pause_def)
  from a3 a4 d(1,2) q have Q: "\<exists>g1 g2. update_queue rnd1 example_queue = Returns g1
        \<and> update_queue rnd1 (submit g1 [keydown ''ArrowUp'' 38]) = Returns g2
        \<and> direction g1 = \<lparr>x = 1, y = 0\<rparr> \<and> direction g2 = \<lparr>x = 0, y = - 1\<rparr>
        \<and> \<not> opposite (direction g1) (direction g2)"
    by blast
  from a6 a7 d(3,4) p have P: "\<exists>p1 p2. update_pause rnd1 example_pause = Returns p1
        \<and> update_pause rnd1 (submit_pause p1 [keydown ''ArrowUp'' 38, keydown ''ArrowLeft'' 37])
            = Returns p2
        \<and> direction p1 = \<lparr>x = 1, y = 0\<rparr> \<and> direction p2 = \<lparr>x = 0, y = - 1\<rparr>
        \<and> \<not> opposite (direction p1) (direction p2)"
    by blast
  from Q P show ?thesis ..
qed

end
